theory Spec2Isabelle
  imports Complex_Main "HOL-Library.Sublist" "HOL-Library.Code_Target_Nat"
begin

section \<open>JavaScript strings and the host runtime\<close>

text \<open>
  A JavaScript string is a sequence of UTF-16 code units; \<open>length\<close> counts code units.
  Literals of the source that are plain ASCII are written \<open>js ''...''\<close>; a character
  outside ASCII (the emoji of the post templates) is written as its code units.
  Numbers are modelled as exact reals (scores) and integers (lengths, indices); the
  rounding of IEEE doubles is not modelled.
\<close>

type_synonym jstring = "nat list"

definition js :: "string \<Rightarrow> jstring" where
  "js s = map of_char s"

text \<open>
  \<open>String.prototype.toLowerCase\<close>, modelled on Basic Latin and Latin-1 letters; other
  code units are left as they are.
\<close>

definition toLowerUnit :: "nat \<Rightarrow> nat" where
  "toLowerUnit c =
     (if (65 \<le> c \<and> c \<le> 90) \<or> (192 \<le> c \<and> c \<le> 222 \<and> c \<noteq> 215) then c + 32 else c)"

definition toLowerCase :: "jstring \<Rightarrow> jstring" where
  "toLowerCase s = map toLowerUnit s"

text \<open>\<open>text.includes(p)\<close>: \<open>p\<close> occurs in \<open>text\<close> as a contiguous run.\<close>

fun includes_str :: "jstring \<Rightarrow> jstring \<Rightarrow> bool" where
  "includes_str [] p = (p = [])"
| "includes_str (c # cs) p = (prefix p (c # cs) \<or> includes_str cs p)"

text \<open>
  \<open>s.split(sep)\<close> for a separator that matches exactly one code unit (the string
  \<open>" "\<close>, the pattern \<open>/[.!?]/\<close>): the pieces between separators, empty pieces kept.
\<close>

fun split_at :: "(nat \<Rightarrow> bool) \<Rightarrow> jstring \<Rightarrow> jstring list" where
  "split_at sep [] = [[]]"
| "split_at sep (c # cs) =
     (if sep c then [] # split_at sep cs
      else (case split_at sep cs of
              [] \<Rightarrow> [[c]]
            | p # ps \<Rightarrow> (c # p) # ps))"

text \<open>\<open>s.substring(0, n)\<close>: a negative \<open>n\<close> counts as 0, a large one as the length.\<close>

definition substring0 :: "jstring \<Rightarrow> int \<Rightarrow> jstring" where
  "substring0 s n = take (nat n) s"

text \<open>\<open>s.trim()\<close> removes white space and line terminators at both ends.\<close>

definition isWhiteSpace :: "nat \<Rightarrow> bool" where
  "isWhiteSpace c =
     ((9 \<le> c \<and> c \<le> 13) \<or> c = 32 \<or> c = 160 \<or> c = 5760 \<or> (8192 \<le> c \<and> c \<le> 8202)
      \<or> c = 8232 \<or> c = 8233 \<or> c = 8239 \<or> c = 8287 \<or> c = 12288 \<or> c = 65279)"

definition trim :: "jstring \<Rightarrow> jstring" where
  "trim s = rev (dropWhile isWhiteSpace (rev (dropWhile isWhiteSpace s)))"

text \<open>Everything the source can throw or be handed as a rejected promise.\<close>

datatype error =
    SyntaxError
  | TypeError
  | RequestFailed
  | InvalidResponse
  | WriteFailed

text \<open>
  The regular-expression engine belongs to the host. \<open>rx word text\<close> stands for
  \<open>(text.match(new RegExp(word, "g")) || []).length\<close>: the number of matches found, or
  \<open>None\<close> when the constructor rejects the pattern with a SyntaxError.
\<close>

type_synonym regexp_engine = "jstring \<Rightarrow> jstring \<Rightarrow> nat option"

text \<open>
  The code units with a meaning of their own in a pattern:
  \<^verbatim>\<open>^ $ \ . * + ? ( ) [ ] { } |\<close>.
  A reference engine for the patterns made of literal characters and the wildcard
  \<open>.\<close> (any code unit but a line terminator). A global match scans from the left and
  resumes after each match. Patterns using any other operator are outside this fragment;
  the reference engine answers \<open>None\<close> for them, and nothing below evaluates it there.
\<close>

definition rx_syntax_char :: "nat \<Rightarrow> bool" where
  "rx_syntax_char c = (c \<in> set [94, 36, 92, 46, 42, 43, 63, 40, 41, 91, 93, 123, 125, 124])"

definition rx_unit_matches :: "nat \<Rightarrow> nat \<Rightarrow> bool" where
  "rx_unit_matches p c =
     (if p = 46 then c \<noteq> 10 \<and> c \<noteq> 13 \<and> c \<noteq> 8232 \<and> c \<noteq> 8233 else p = c)"

fun rx_matches_at :: "jstring \<Rightarrow> jstring \<Rightarrow> bool" where
  "rx_matches_at [] t = True"
| "rx_matches_at (p # ps) [] = False"
| "rx_matches_at (p # ps) (c # cs) = (rx_unit_matches p c \<and> rx_matches_at ps cs)"

function rx_count :: "jstring \<Rightarrow> jstring \<Rightarrow> nat" where
  "rx_count pat t =
     (if pat = [] then length t + 1
      else if length t < length pat then 0
      else if rx_matches_at pat t then 1 + rx_count pat (drop (length pat) t)
      else rx_count pat (tl t))"
  by pat_completeness auto
termination
proof (relation "measure (\<lambda>(pat, t). length t)")
  fix pat t :: jstring
  assume "pat \<noteq> []" and "\<not> length t < length pat"
  then have "0 < length pat" and "0 < length t"
    by (cases pat; cases t; simp)+
  then show "((pat, drop (length pat) t), pat, t) \<in> measure (\<lambda>(pat, t). length t)"
    and "((pat, tl t), pat, t) \<in> measure (\<lambda>(pat, t). length t)"
    by simp_all
qed simp

declare rx_count.simps [simp del]

definition dot_literal_regexp :: regexp_engine where
  "dot_literal_regexp word text =
     (if list_all (\<lambda>c. c = 46 \<or> \<not> rx_syntax_char c) word then Some (rx_count word text)
      else None)"

text \<open>The number of occurrences of a literal word, counted from the left without overlap.\<close>

function count_occurrences :: "jstring \<Rightarrow> jstring \<Rightarrow> nat" where
  "count_occurrences w t =
     (if w = [] then length t + 1
      else if length t < length w then 0
      else if prefix w t then 1 + count_occurrences w (drop (length w) t)
      else count_occurrences w (tl t))"
  by pat_completeness auto
termination
proof (relation "measure (\<lambda>(w, t). length t)")
  fix w t :: jstring
  assume "w \<noteq> []" and "\<not> length t < length w"
  then have "0 < length w" and "0 < length t"
    by (cases w; cases t; simp)+
  then show "((w, drop (length w) t), w, t) \<in> measure (\<lambda>(w, t). length t)"
    and "((w, tl t), w, t) \<in> measure (\<lambda>(w, t). length t)"
    by simp_all
qed simp

declare count_occurrences.simps [simp del]

section \<open>Relevance scoring (LinkedInAINewsAgent.calculateRelevanceScore)\<close>

definition highValueTerms :: "jstring list" where
  "highValueTerms =
     [js ''artificial intelligence'', js ''machine learning'', js ''neural network'',
      js ''deep learning'', js ''generative ai'', js ''large language model'']"

definition mediumValueTerms :: "jstring list" where
  "mediumValueTerms =
     [js ''ai'', js ''ml'', js ''algorithm'', js ''automation'', js ''chatgpt'', js ''openai'']"

definition newsTerms :: "jstring list" where
  "newsTerms =
     [js ''announced'', js ''launched'', js ''breakthrough'', js ''funding'', js ''research'']"

text \<open>The loop over the query words: words of at most two characters are skipped.\<close>

fun queryWordScore :: "regexp_engine \<Rightarrow> jstring \<Rightarrow> jstring list \<Rightarrow> real \<Rightarrow> error + real" where
  "queryWordScore rx lowerText [] score = Inr score"
| "queryWordScore rx lowerText (word # ws) score =
     (if length word > 2 then
        (case rx word lowerText of
           None \<Rightarrow> Inl SyntaxError
         | Some matches \<Rightarrow> queryWordScore rx lowerText ws (score + real matches * 0.15))
      else queryWordScore rx lowerText ws score)"

text \<open>One of the three loops \<open>for (const term of terms) if (lowerText.includes(term)) score += w\<close>.\<close>

definition termBoost :: "jstring \<Rightarrow> jstring list \<Rightarrow> real \<Rightarrow> real \<Rightarrow> real" where
  "termBoost lowerText terms w score =
     fold (\<lambda>term s. if includes_str lowerText term then s + w else s) terms score"

definition calculateRelevanceScore :: "regexp_engine \<Rightarrow> jstring \<Rightarrow> jstring \<Rightarrow> error + real" where
  "calculateRelevanceScore rx text query =
     (let lowerText = toLowerCase text;
          queryWords = split_at (\<lambda>c. c = 32) (toLowerCase query)
      in case queryWordScore rx lowerText queryWords 0 of
           Inl e \<Rightarrow> Inl e
         | Inr s0 \<Rightarrow>
             Inr (min (termBoost lowerText newsTerms 0.1
                        (termBoost lowerText mediumValueTerms 0.2
                          (termBoost lowerText highValueTerms 0.3 s0))) 1.0))"

text \<open>
  The scoring rule in the words of the specification: 0.15 per occurrence of each query
  keyword longer than two characters, 0.3 per high-value phrase present, 0.2 per
  medium-value term present, 0.1 per news-action term present, the total clamped to 1.
\<close>

definition relevance_formula :: "jstring \<Rightarrow> jstring \<Rightarrow> real" where
  "relevance_formula text query =
     (let t = toLowerCase text;
          keywords = filter (\<lambda>w. length w > 2) (split_at (\<lambda>c. c = 32) (toLowerCase query))
      in min 1 (0.15 * real (sum_list (map (\<lambda>w. count_occurrences w t) keywords))
                + 0.3 * real (length (filter (includes_str t) highValueTerms))
                + 0.2 * real (length (filter (includes_str t) mediumValueTerms))
                + 0.1 * real (length (filter (includes_str t) newsTerms))))"

section \<open>Articles, configuration and provider payloads\<close>

text \<open>\<open>xs.slice(0, n)\<close>: a negative \<open>n\<close> counts from the end.\<close>

definition slice0 :: "'a list \<Rightarrow> int \<Rightarrow> 'a list" where
  "slice0 xs n = (if n < 0 then take (nat (int (length xs) + n)) xs else take (nat n) xs)"

text \<open>
  \<open>xs.sort(cmp)\<close>: the sort of the language is stable; for a comparator that orders its
  arguments consistently the result is the one of a stable insertion sort.
\<close>

fun insertSorted :: "('a \<Rightarrow> 'a \<Rightarrow> real) \<Rightarrow> 'a \<Rightarrow> 'a list \<Rightarrow> 'a list" where
  "insertSorted cmp x [] = [x]"
| "insertSorted cmp x (y # ys) = (if cmp x y \<le> 0 then x # y # ys else y # insertSorted cmp x ys)"

definition sortBy :: "('a \<Rightarrow> 'a \<Rightarrow> real) \<Rightarrow> 'a list \<Rightarrow> 'a list" where
  "sortBy cmp xs = foldr (insertSorted cmp) xs []"

text \<open>\<open>xs.findIndex(p)\<close>: the first index whose element satisfies \<open>p\<close>, or -1.\<close>

fun findIndex :: "('a \<Rightarrow> bool) \<Rightarrow> 'a list \<Rightarrow> int" where
  "findIndex p [] = - 1"
| "findIndex p (x # xs) =
     (if p x then 0 else (let r = findIndex p xs in if r = - 1 then - 1 else r + 1))"

record keyPoint =
  pointText :: jstring
  importance :: nat

record article =
  title :: jstring
  url :: jstring
  summary :: jstring
  source :: jstring
  publishedDate :: nat
  relevanceScore :: real
  keyPoints :: "keyPoint list"
  searchQuery :: jstring

record config =
  aiKeywords :: "jstring list"
  maxResults :: int
  minRelevanceScore :: real
  maxCharacters :: int
  maxHashtags :: int
  styles :: "jstring list"
  preferred :: "jstring list"
  excluded :: "jstring list"
  cacheEnabled :: bool
  cacheDuration :: nat
  cacheMaxEntries :: nat

definition CONFIG :: config where
  "CONFIG = \<lparr>
     aiKeywords = [js ''artificial intelligence'', js ''machine learning'', js ''OpenAI'',
       js ''ChatGPT'', js ''neural networks'', js ''deep learning'', js ''AI startups'',
       js ''generative AI'', js ''AI ethics'', js ''AI regulation''],
     maxResults = 10,
     minRelevanceScore = 0.4,
     maxCharacters = 3000,
     maxHashtags = 5,
     styles = [js ''news_share'', js ''question'', js ''insight'', js ''list''],
     preferred = [js ''techcrunch.com'', js ''wired.com'', js ''technologyreview.com'',
       js ''venturebeat.com'', js ''theverge.com'', js ''arstechnica.com''],
     excluded = [js ''spam-site.com'', js ''clickbait-news.com''],
     cacheEnabled = True,
     cacheDuration = 3600000,
     cacheMaxEntries = 100 \<rparr>"

text \<open>
  The payload of the instant-answer provider after \<open>JSON.parse\<close>. A text field that is
  absent is the empty string (both are falsy); a list field that is absent or not an
  array is \<open>None\<close>. A related topic is a hit of its own or a group with a \<open>Topics\<close> array.
\<close>

record ddgItem =
  FirstURL :: jstring
  Text :: jstring

datatype ddgTopic = Topic ddgItem | Group "ddgItem list"

record ddgResponse =
  AbstractURL :: jstring
  AbstractText :: jstring
  Heading :: jstring
  RelatedTopics :: "ddgTopic list option"
  Results :: "ddgItem list option"

section \<open>Normalizer (LinkedInAINewsAgent.parseSearchResults and its helpers)\<close>

text \<open>\<open>s.replace(/<[^>]*>/g, "")\<close>: every \<open><\<close> up to the next \<open>>\<close> is removed; a \<open><\<close> with no
  \<open>>\<close> after it stays.\<close>

function stripTags :: "jstring \<Rightarrow> jstring" where
  "stripTags [] = []"
| "stripTags (c # cs) =
     (if c = 60 then
        (case dropWhile (\<lambda>d. d \<noteq> 62) cs of
           [] \<Rightarrow> c # stripTags cs
         | d # rest \<Rightarrow> stripTags rest)
      else c # stripTags cs)"
  by pat_completeness auto
termination
proof (relation "measure length")
  fix c d :: nat and cs rest :: jstring
  assume "dropWhile (\<lambda>d. d \<noteq> 62) cs = d # rest"
  then have "length (d # rest) \<le> length cs"
    using length_dropWhile_le [of "\<lambda>d. d \<noteq> 62" cs] by simp
  then show "(rest, c # cs) \<in> measure length" by simp
qed simp_all

declare stripTags.simps [simp del]

text \<open>\<open>s.replace(p, "")\<close> with a string pattern: the first occurrence of \<open>p\<close> is removed.\<close>

fun removeFirst :: "jstring \<Rightarrow> jstring \<Rightarrow> jstring" where
  "removeFirst p [] = []"
| "removeFirst p (c # cs) =
     (if prefix p (c # cs) then drop (length p) (c # cs) else c # removeFirst p cs)"

text \<open>
  \<open>new URL(url).hostname\<close> belongs to the host: \<open>hostname url\<close> is \<open>None\<close> when the
  constructor throws.
\<close>

type_synonym url_parser = "jstring \<Rightarrow> jstring option"

definition extractDomain :: "url_parser \<Rightarrow> jstring \<Rightarrow> jstring" where
  "extractDomain hostname u =
     (case hostname u of
        Some h \<Rightarrow> removeFirst (js ''www.'') h
      | None \<Rightarrow> js ''unknown-source.com'')"

definition extractTitleFromText :: "jstring \<Rightarrow> jstring" where
  "extractTitleFromText t =
     (let sentences = split_at (\<lambda>c. c = 46 \<or> c = 33 \<or> c = 63) t;
          firstSentence = trim (hd sentences)
      in if length firstSentence > 100 then substring0 firstSentence 97 @ js ''...''
         else if firstSentence = [] then js ''AI News Article''
         else firstSentence)"

definition newsIndicators :: "jstring list" where
  "newsIndicators =
     [js ''announced'', js ''launched'', js ''released'', js ''unveiled'', js ''introduced'',
      js ''breakthrough'', js ''development'', js ''research'', js ''study'', js ''report'',
      js ''funding'', js ''investment'', js ''acquisition'', js ''partnership'',
      js ''regulation'', js ''policy'', js ''law'', js ''ruling'', js ''decision'',
      js ''update'', js ''version'', js ''feature'', js ''improvement'', js ''innovation'',
      js ''company'', js ''startup'', js ''corporation'', js ''organization'',
      js ''technology'', js ''platform'', js ''system'', js ''tool'', js ''application'']"

definition aiTerms :: "jstring list" where
  "aiTerms =
     [js ''artificial intelligence'', js ''machine learning'', js ''neural network'',
      js ''deep learning'', js ''ai model'', js ''algorithm'', js ''automation'',
      js ''chatgpt'', js ''openai'', js ''generative'', js ''llm'', js ''transformer'']"

definition isNewsWorthy :: "jstring \<Rightarrow> bool" where
  "isNewsWorthy t =
     (let lowerText = toLowerCase t;
          hasNewsIndicator = list_ex (\<lambda>indicator. includes_str lowerText indicator) newsIndicators;
          hasAITerm = list_ex (\<lambda>term. includes_str lowerText term) aiTerms
      in hasNewsIndicator \<and> hasAITerm)"

text \<open>
  The body of the loops over hits. The whole of \<open>parseSearchResults\<close> runs inside one
  \<open>try\<close>: an exception (the pattern of a query word rejected by \<open>RegExp\<close>) ends the
  parsing, and the articles collected so far are returned. The loops therefore return
  the list collected and the exception, if any.
\<close>

fun processItems ::
  "regexp_engine \<Rightarrow> url_parser \<Rightarrow> nat \<Rightarrow> jstring \<Rightarrow> ddgItem list \<Rightarrow> article list
     \<Rightarrow> article list \<times> error option" where
  "processItems rx hostname now originalQuery [] articles = (articles, None)"
| "processItems rx hostname now originalQuery (item # items) articles =
     (if FirstURL item \<noteq> [] \<and> Text item \<noteq> [] then
        (let cleanText = trim (stripTags (Text item))
         in if length cleanText > 100 then
              (case calculateRelevanceScore rx cleanText originalQuery of
                 Inl e \<Rightarrow> (articles, Some e)
               | Inr score \<Rightarrow>
                   (let a = \<lparr> title = extractTitleFromText cleanText,
                              url = FirstURL item,
                              summary = cleanText,
                              source = extractDomain hostname (FirstURL item),
                              publishedDate = now,
                              relevanceScore = score,
                              keyPoints = [],
                              searchQuery = originalQuery \<rparr>
                    in if isNewsWorthy (summary a) \<and> relevanceScore a > 0.3
                       then processItems rx hostname now originalQuery items (articles @ [a])
                       else processItems rx hostname now originalQuery items articles))
            else processItems rx hostname now originalQuery items articles)
      else processItems rx hostname now originalQuery items articles)"

fun processTopics ::
  "regexp_engine \<Rightarrow> url_parser \<Rightarrow> nat \<Rightarrow> jstring \<Rightarrow> ddgTopic list \<Rightarrow> article list
     \<Rightarrow> article list \<times> error option" where
  "processTopics rx hostname now originalQuery [] articles = (articles, None)"
| "processTopics rx hostname now originalQuery (topic # topics) articles =
     (let topicsToProcess = (case topic of Group ts \<Rightarrow> ts | Topic t \<Rightarrow> [t])
      in case processItems rx hostname now originalQuery topicsToProcess articles of
           (articles', Some e) \<Rightarrow> (articles', Some e)
         | (articles', None) \<Rightarrow> processTopics rx hostname now originalQuery topics articles')"

text \<open>The article built from the direct abstract result, when there is one.\<close>

definition abstractArticle :: "url_parser \<Rightarrow> nat \<Rightarrow> ddgResponse \<Rightarrow> jstring \<Rightarrow> article" where
  "abstractArticle hostname now data originalQuery =
     \<lparr> title = (if Heading data \<noteq> [] then Heading data
                 else extractTitleFromText (AbstractText data)),
       url = AbstractURL data,
       summary = AbstractText data,
       source = extractDomain hostname (AbstractURL data),
       publishedDate = now,
       relevanceScore = 0.9,
       keyPoints = [],
       searchQuery = originalQuery \<rparr>"

definition parseSearchResults ::
  "regexp_engine \<Rightarrow> url_parser \<Rightarrow> nat \<Rightarrow> ddgResponse \<Rightarrow> jstring \<Rightarrow> article list" where
  "parseSearchResults rx hostname now data originalQuery =
     (let articles0 =
            (if AbstractURL data \<noteq> [] \<and> AbstractText data \<noteq> []
                \<and> length (AbstractText data) > 50
                \<and> isNewsWorthy (summary (abstractArticle hostname now data originalQuery))
             then [abstractArticle hostname now data originalQuery] else []);
          (articles1, thrown1) =
            (case RelatedTopics data of
               None \<Rightarrow> (articles0, None)
             | Some topics \<Rightarrow> processTopics rx hostname now originalQuery topics articles0)
      in case thrown1 of
           Some e \<Rightarrow> articles1
         | None \<Rightarrow>
             (case Results data of
                None \<Rightarrow> articles1
              | Some results \<Rightarrow>
                  fst (processItems rx hostname now originalQuery results articles1)))"

section \<open>Filter and ranking (LinkedInAINewsAgent.filterAndRankArticles)\<close>

definition matchesSource :: "jstring list \<Rightarrow> article \<Rightarrow> bool" where
  "matchesSource names a =
     list_ex (\<lambda>name. includes_str (toLowerCase (source a)) (toLowerCase name)) names"

definition uniqueArticles :: "article list \<Rightarrow> article list" where
  "uniqueArticles articles =
     map fst (filter (\<lambda>(a, index). int index = findIndex (\<lambda>b. url b = url a) articles)
                     (zip articles [0 ..< length articles]))"

definition isQualityArticle :: "config \<Rightarrow> article \<Rightarrow> bool" where
  "isQualityArticle cfg a =
     (if matchesSource (excluded cfg) a then False
      else if relevanceScore a < minRelevanceScore cfg then False
      else if length (summary a) < 100 then False
      else True)"

definition compareArticles :: "config \<Rightarrow> article \<Rightarrow> article \<Rightarrow> real" where
  "compareArticles cfg a b =
     (let aPreferred = matchesSource (preferred cfg) a;
          bPreferred = matchesSource (preferred cfg) b
      in if aPreferred \<and> \<not> bPreferred then - 1
         else if \<not> aPreferred \<and> bPreferred then 1
         else relevanceScore b - relevanceScore a)"

definition filterAndRankArticles :: "config \<Rightarrow> article list \<Rightarrow> article list" where
  "filterAndRankArticles cfg articles =
     (let qualityArticles = filter (isQualityArticle cfg) (uniqueArticles articles)
      in slice0 (sortBy (compareArticles cfg) qualityArticles) (maxResults cfg))"

section \<open>Post synthesis (LinkedInAINewsAgent.createLinkedInPost and its helpers)\<close>

text \<open>\<open>s.split(/[.!?]+/)\<close>: the pieces between maximal runs of separators.\<close>

function splitRuns :: "(nat \<Rightarrow> bool) \<Rightarrow> jstring \<Rightarrow> jstring list" where
  "splitRuns sep s =
     (case dropWhile (\<lambda>c. \<not> sep c) s of
        [] \<Rightarrow> [takeWhile (\<lambda>c. \<not> sep c) s]
      | d # rest \<Rightarrow> takeWhile (\<lambda>c. \<not> sep c) s # splitRuns sep (dropWhile sep rest))"
  by pat_completeness auto
termination
proof (relation "measure (\<lambda>(sep, s). length s)")
  fix sep :: "nat \<Rightarrow> bool" and s rest :: jstring and d :: nat
  assume "dropWhile (\<lambda>c. \<not> sep c) s = d # rest"
  then have "length (d # rest) \<le> length s"
    using length_dropWhile_le [of "\<lambda>c. \<not> sep c" s] by simp
  moreover have "length (dropWhile sep rest) \<le> length rest"
    by (rule length_dropWhile_le)
  ultimately show "((sep, dropWhile sep rest), sep, s) \<in> measure (\<lambda>(sep, s). length s)"
    by simp
qed simp

declare splitRuns.simps [simp del]

text \<open>\<open>xs.join(sep)\<close>.\<close>

fun joinWith :: "jstring \<Rightarrow> jstring list \<Rightarrow> jstring" where
  "joinWith sep [] = []"
| "joinWith sep [x] = x"
| "joinWith sep (x # y # ys) = x @ sep @ joinWith sep (y # ys)"

text \<open>The decimal digits of a natural number, as a template literal prints it.\<close>

function showNat :: "nat \<Rightarrow> jstring" where
  "showNat n = (if n < 10 then [48 + n] else showNat (n div 10) @ [48 + n mod 10])"
  by pat_completeness auto
termination
  by (relation "measure id") simp_all

declare showNat.simps [simp del]

text \<open>
  \<open>Math.floor(Math.random() * xs.length)\<close> draws an index of \<open>xs\<close>. The draw is a
  parameter \<open>r\<close> of the functions that use it; \<open>pick r xs\<close> is the element drawn.
\<close>

definition pick :: "nat \<Rightarrow> 'a list \<Rightarrow> 'a" where
  "pick r xs = xs ! (r mod length xs)"

record post =
  content :: jstring
  hashtags :: "jstring list"
  sourceUrl :: jstring
  style :: jstring
  characterCount :: nat
  postArticle :: "jstring \<times> jstring"

definition keyIndicators :: "jstring list" where
  "keyIndicators =
     [js ''announced'',
      js ''launched'',
      js ''released'',
      js ''developed'',
      js ''created'',
      js ''breakthrough'',
      js ''innovation'',
      js ''improvement'',
      js ''advancement'',
      js ''funding'',
      js ''investment'',
      js ''partnership'',
      js ''acquisition'',
      js ''research'',
      js ''study'',
      js ''findings'',
      js ''results'',
      js ''discovered'',
      js ''will'',
      js ''can'',
      js ''enables'',
      js ''allows'',
      js ''provides'',
      js ''offers'']"

definition isKeyPoint :: "jstring \<Rightarrow> bool" where
  "isKeyPoint sentence =
     (let lowerSentence = toLowerCase sentence
      in list_ex (\<lambda>indicator. includes_str lowerSentence indicator) keyIndicators
         \<and> length sentence > 30 \<and> length sentence < 200)"

definition termPoints :: "jstring \<Rightarrow> jstring list \<Rightarrow> nat \<Rightarrow> nat \<Rightarrow> nat" where
  "termPoints lowerSentence terms w score =
     fold (\<lambda>term s. if includes_str lowerSentence term then s + w else s) terms score"

definition calculateImportance :: "jstring \<Rightarrow> nat" where
  "calculateImportance sentence =
     (let lowerSentence = toLowerCase sentence;
          s1 = termPoints lowerSentence
                 [js ''breakthrough'', js ''revolutionary'', js ''first'', js ''new'', js ''major''] 3 0;
          s2 = termPoints lowerSentence
                 [js ''announced'', js ''launched'', js ''developed'', js ''funding'',
                  js ''partnership''] 2 s1
      in termPoints lowerSentence
           [js ''artificial intelligence'', js ''machine learning'', js ''neural network'',
            js ''ai''] 1 s2)"

definition extractKeyPoints :: "article \<Rightarrow> keyPoint list" where
  "extractKeyPoints a =
     (let sentences = filter (\<lambda>s. length (trim s) > 20)
                        (splitRuns (\<lambda>c. c = 46 \<or> c = 33 \<or> c = 63) (summary a));
          points = map (\<lambda>trimmed. \<lparr> pointText = trimmed,
                                     importance = calculateImportance trimmed \<rparr>)
                     (filter isKeyPoint (map trim (slice0 sentences 5)))
      in slice0 (sortBy (\<lambda>p q. real (importance q) - real (importance p)) points) 3)"

text \<open>
  The tags are collected in a \<open>Set\<close>, which keeps insertion order and ignores a value
  it already holds.
\<close>

definition addTag :: "jstring list \<Rightarrow> jstring \<Rightarrow> jstring list" where
  "addTag tags t = (if t \<in> set tags then tags else tags @ [t])"

definition hashtagMap :: "(jstring \<times> jstring) list" where
  "hashtagMap =
     [(js ''machine learning'', js ''#MachineLearning''),
      (js ''deep learning'', js ''#DeepLearning''),
      (js ''neural network'', js ''#NeuralNetworks''),
      (js ''chatgpt'', js ''#ChatGPT''),
      (js ''openai'', js ''#OpenAI''),
      (js ''generative'', js ''#GenerativeAI''),
      (js ''startup'', js ''#AIStartup''),
      (js ''funding'', js ''#TechFunding''),
      (js ''research'', js ''#AIResearch''),
      (js ''ethics'', js ''#AIEthics''),
      (js ''regulation'', js ''#AIRegulation''),
      (js ''automation'', js ''#Automation''),
      (js ''innovation'', js ''#Innovation''),
      (js ''technology'', js ''#Technology''),
      (js ''future'', js ''#FutureOfWork'')]"

definition generateHashtags :: "config \<Rightarrow> article \<Rightarrow> jstring list" where
  "generateHashtags cfg a =
     (let t = toLowerCase (title a @ js '' '' @ summary a);
          core = addTag (addTag [] (js ''#ArtificialIntelligence'')) (js ''#AI'');
          tags = fold (\<lambda>(keyword, hashtag) tags.
                         if includes_str t keyword then addTag tags hashtag else tags)
                      hashtagMap core
      in slice0 tags (maxHashtags cfg))"

definition hooks :: "jstring list" where
  "hooks =
     [[55357, 56960] @ js '' Exciting developments in AI:'',
      [55357, 56481] @ js '' This caught my attention in today'' @ [39]
        @ js ''s AI news:'',
      [55357, 56613] @ js '' Hot off the press in artificial intelligence:'',
      [9889] @ js '' Breaking: Major AI advancement just announced:'',
      [55356, 57263] @ js '' Here'' @ [39] @ js ''s what'' @ [39]
        @ js ''s making waves in the AI world:'',
      [55356, 57119] @ js '' Fascinating AI breakthrough to share:'',
      [55357, 56520]
        @ js '' The AI industry just took another big step forward:'']"

definition getEngagingHook :: "nat \<Rightarrow> article \<Rightarrow> jstring" where
  "getEngagingHook r a = pick r hooks"

definition createSummary :: "article \<Rightarrow> keyPoint list \<Rightarrow> int \<Rightarrow> jstring" where
  "createSummary a points maxLength =
     (let s = (if points \<noteq> [] then pointText (hd points) else summary a)
      in if int (length s) > maxLength then substring0 s (maxLength - 3) @ js ''...'' else s)"

definition extractMainTopic :: "article \<Rightarrow> jstring" where
  "extractMainTopic a =
     (let t = toLowerCase (title a)
      in if includes_str t (js ''chatgpt'') \<or> includes_str t (js ''openai'') then js ''ChatGPT/OpenAI''
         else if includes_str t (js ''machine learning'') then js ''machine learning''
         else if includes_str t (js ''deep learning'') then js ''deep learning''
         else if includes_str t (js ''neural network'') then js ''neural networks''
         else if includes_str t (js ''generative'') then js ''generative AI''
         else if includes_str t (js ''startup'') then js ''AI startups''
         else if includes_str t (js ''regulation'') \<or> includes_str t (js ''policy'')
           then js ''AI regulation''
         else if includes_str t (js ''ethics'') then js ''AI ethics''
         else js ''artificial intelligence'')"

definition insights :: "jstring list" where
  "insights =
     [js ''This could significantly impact how businesses approach AI integration.'',
      js ''The implications for the future of work are worth considering.'',
      js ''This advancement opens up new possibilities for AI applications.'',
      js ''The competitive landscape in AI continues to evolve rapidly.'',
      js ''This highlights the accelerating pace of AI innovation.'']"

definition generateInsights :: "nat \<Rightarrow> keyPoint list \<Rightarrow> jstring" where
  "generateInsights r points =
     (if points = [] then js ''This development represents another step forward in AI capabilities.''
      else pick r insights)"

definition createNewsSharePost :: "nat \<Rightarrow> article \<Rightarrow> keyPoint list \<Rightarrow> jstring" where
  "createNewsSharePost r a points =
     getEngagingHook r a @ [10, 10] @ createSummary a points 200
     @ [10, 10] @ js ''What are your thoughts on this development?''"

definition questions :: "article \<Rightarrow> jstring list" where
  "questions a =
     [js ''How do you think '' @ extractMainTopic a @ js '' will impact the industry?'',
      js ''What'' @ [39]
       @ js ''s your take on this latest development in AI?'',
      js ''Do you see this as a breakthrough or just incremental progress?'',
      js ''How might this change the way we work with AI?'',
      js ''What opportunities does this create for businesses?'']"

definition createQuestionPost :: "nat \<Rightarrow> article \<Rightarrow> keyPoint list \<Rightarrow> jstring" where
  "createQuestionPost r a points =
     [55358, 56596] @ js '' '' @ pick r (questions a) @ [10, 10] @ createSummary a points 150
     @ [10, 10] @ js ''I'' @ [39]
       @ js ''d love to hear your perspectives in the comments!''"

definition createInsightPost :: "nat \<Rightarrow> article \<Rightarrow> keyPoint list \<Rightarrow> jstring" where
  "createInsightPost r a points =
     [55357, 56481] @ js '' Key insight from today'' @ [39]
       @ js ''s AI news:'' @ [10, 10]
     @ createSummary a points 150 @ [10, 10] @ generateInsights r points
     @ [10, 10]
       @ js ''This could be a game-changer for how we approach AI development.''"

definition listItems :: "keyPoint list \<Rightarrow> jstring" where
  "listItems points =
     joinWith [10]
       (map (\<lambda>(point, index). showNat (index + 1) @ js ''. '' @ pointText point)
            (zip (slice0 points 3) [0 ..< length (slice0 points 3)]))"

definition createListPost :: "article \<Rightarrow> keyPoint list \<Rightarrow> jstring" where
  "createListPost a points =
     [55357, 56523] @ js '' Key takeaways from the latest AI news:''
       @ [10, 10]
     @ createSummary a points 100
     @ [10, 10] @ js ''Main points:'' @ [10] @ listItems points
     @ [10, 10] @ js ''Which point resonates most with you?''"

text \<open>
  \<open>createLinkedInPost(article, style)\<close>; \<open>r\<close> is the random draw of the template. The
  budget \<open>maxContentLength\<close> can be negative; \<open>substring\<close> then yields the empty string.
\<close>

definition createLinkedInPost :: "config \<Rightarrow> nat \<Rightarrow> article \<Rightarrow> jstring \<Rightarrow> post" where
  "createLinkedInPost cfg r a st =
     (let points = extractKeyPoints a;
          tags = generateHashtags cfg a;
          body = (if st = js ''news_share'' then createNewsSharePost r a points
                  else if st = js ''question'' then createQuestionPost r a points
                  else if st = js ''insight'' then createInsightPost r a points
                  else if st = js ''list'' then createListPost a points
                  else createNewsSharePost r a points);
          hashtagString = joinWith (js '' '') tags;
          sourceText = [10, 10] @ js ''Source: '' @ url a;
          maxContentLength = maxCharacters cfg - int (length hashtagString)
                               - int (length sourceText) - 10;
          body' = (if int (length body) > maxContentLength
                   then substring0 body (maxContentLength - 3) @ js ''...'' else body);
          finalContent = body' @ [10, 10] @ hashtagString @ sourceText
      in \<lparr> content = finalContent,
           hashtags = tags,
           sourceUrl = url a,
           style = st,
           characterCount = length finalContent,
           postArticle = (title a, source a) \<rparr>)"

section \<open>Search stage (LinkedInAINewsAgent.searchAINews)\<close>

text \<open>
  What the network gives back for one request: a timeout, a transport error, or a
  response with its status code and its body after \<open>JSON.parse\<close> (\<open>None\<close> for an empty
  body or one that does not parse). The network is a parameter: \<open>net n q\<close> is the outcome
  of the \<open>n\<close>-th request of the agent, made for the query \<open>q\<close>. The request URL is built
  from the query alone.
\<close>

datatype httpOutcome =
    RequestTimeout
  | RequestError
  | HttpResponse nat "ddgResponse option"

type_synonym network = "nat \<Rightarrow> jstring \<Rightarrow> httpOutcome"

record cacheEntry =
  cacheKey :: "jstring \<times> nat"
  cacheData :: "article list"
  cacheTimestamp :: nat

text \<open>
  The state of the agent: its cache (a \<open>Map\<close>, in insertion order) and the calls of
  \<open>duckDuckGoSearch(query, timeframe)\<close> made so far. Waiting for the rate limit takes
  time and changes nothing else; it is not modelled.
\<close>

record agentState =
  cache :: "cacheEntry list"
  requests :: "(jstring \<times> jstring) list"

definition duckDuckGoSearch ::
  "regexp_engine \<Rightarrow> url_parser \<Rightarrow> network \<Rightarrow> nat \<Rightarrow> agentState \<Rightarrow> jstring \<Rightarrow> jstring
     \<Rightarrow> (error + article list) \<times> agentState" where
  "duckDuckGoSearch rx hostname net now s query timeframe =
     (let s' = s\<lparr> requests := requests s @ [(query, timeframe)] \<rparr>
      in case net (length (requests s)) query of
           RequestTimeout \<Rightarrow> (Inl RequestFailed, s')
         | RequestError \<Rightarrow> (Inl RequestFailed, s')
         | HttpResponse code body \<Rightarrow>
             (if code \<noteq> 200 then (Inr [], s')
              else case body of
                     None \<Rightarrow> (Inr [], s')
                   | Some d \<Rightarrow> (Inr (parseSearchResults rx hostname now d query), s')))"

fun performSearchLoop ::
  "regexp_engine \<Rightarrow> url_parser \<Rightarrow> network \<Rightarrow> nat \<Rightarrow> jstring \<Rightarrow> jstring list \<Rightarrow> article list
     \<Rightarrow> agentState \<Rightarrow> article list \<times> agentState" where
  "performSearchLoop rx hostname net now timeframe [] articles s = (articles, s)"
| "performSearchLoop rx hostname net now timeframe (keyword # keywords) articles s =
     (case duckDuckGoSearch rx hostname net now s keyword timeframe of
        (Inl e, s') \<Rightarrow> performSearchLoop rx hostname net now timeframe keywords articles s'
      | (Inr searchResults, s') \<Rightarrow>
          (if searchResults \<noteq> []
           then performSearchLoop rx hostname net now timeframe keywords
                  (articles @ searchResults) s'
           else performSearchLoop rx hostname net now timeframe keywords articles s'))"

definition performSearch ::
  "config \<Rightarrow> regexp_engine \<Rightarrow> url_parser \<Rightarrow> network \<Rightarrow> nat \<Rightarrow> jstring \<Rightarrow> agentState
     \<Rightarrow> article list \<times> agentState" where
  "performSearch cfg rx hostname net now timeframe s =
     performSearchLoop rx hostname net now timeframe (aiKeywords cfg) [] s"

text \<open>\<open>map.set(k, v)\<close>: an existing key keeps its place, a new one goes last.\<close>

fun mapSet :: "cacheEntry list \<Rightarrow> cacheEntry \<Rightarrow> cacheEntry list" where
  "mapSet [] e = [e]"
| "mapSet (x # xs) e = (if cacheKey x = cacheKey e then e # xs else x # mapSet xs e)"

definition cacheArticles ::
  "config \<Rightarrow> nat \<Rightarrow> agentState \<Rightarrow> article list \<Rightarrow> jstring \<Rightarrow> agentState" where
  "cacheArticles cfg now s articles query =
     (if \<not> cacheEnabled cfg \<or> articles = [] then s
      else (let c = mapSet (cache s)
                      \<lparr> cacheKey = (query, now), cacheData = articles, cacheTimestamp = now \<rparr>
            in s\<lparr> cache := (if length c > cacheMaxEntries cfg then tl c else c) \<rparr>))"

text \<open>
  \<open>searchAINews\<close>. Its \<open>catch\<close> branch (the cached articles as a fallback) cannot be
  reached: \<open>performSearch\<close> catches the failure of every request and \<open>cacheArticles\<close>
  does not throw.
\<close>

definition searchAINews ::
  "config \<Rightarrow> regexp_engine \<Rightarrow> url_parser \<Rightarrow> network \<Rightarrow> nat \<Rightarrow> agentState
     \<Rightarrow> article list \<times> agentState" where
  "searchAINews cfg rx hostname net now s =
     (let (day, s1) = performSearch cfg rx hostname net now (js ''d'') s;
          (allArticles, s2) =
            (if day = [] then performSearch cfg rx hostname net now (js ''w'') s1
             else (day, s1));
          s3 = (if allArticles \<noteq> [] then cacheArticles cfg now s2 allArticles (js ''ai_news_search'')
                else s2)
      in (filterAndRankArticles cfg allArticles, s3))"

section \<open>The briefing agent (AIGoodNewsAgent)\<close>

record newsArticle =
  newsTitle :: jstring
  description :: jstring
  newsUrl :: jstring
  newsSource :: jstring
  publishedAt :: jstring
  articleContent :: jstring

record topArticle =
  rank :: nat
  topTitle :: jstring
  topSummary :: jstring
  whyPositive :: jstring
  topKeyPoints :: "jstring list"
  originalIndex :: int

record analysis =
  topArticles :: "topArticle list"
  overallTrend :: jstring

text \<open>
  The surroundings of the agent. \<open>geminiApiKey\<close> and \<open>newsApiKey\<close> are the environment
  variables (absent or empty is falsy). \<open>geminiReply prompt\<close> is the outcome of
  \<open>callGeminiAPI(prompt)\<close>: the generated text, or the error of a failed request or of a
  response without the expected field. \<open>jsonParse text\<close> is \<open>JSON.parse(text)\<close> read as
  an analysis of the shape the prompt asks for, with any integer as \<open>originalIndex\<close>, or
  the SyntaxError. \<open>newsApi\<close> and \<open>duckDuckGo\<close> give, for a keyword, the articles its
  request yields or the error caught for it. \<open>writeFails\<close> says whether writing the
  seen-articles file throws.
\<close>

record surroundings =
  geminiApiKey :: "jstring option"
  newsApiKey :: "jstring option"
  geminiReply :: "jstring \<Rightarrow> error + jstring"
  jsonParse :: "jstring \<Rightarrow> error + analysis"
  newsApi :: "jstring \<Rightarrow> error + newsArticle list"
  duckDuckGo :: "jstring \<Rightarrow> error + newsArticle list"
  writeFails :: bool

definition truthy :: "jstring option \<Rightarrow> bool" where
  "truthy k = (case k of None \<Rightarrow> False | Some v \<Rightarrow> v \<noteq> [])"

text \<open>The seen-article store: the list in memory and the array in \<open>seen-articles.json\<close>.\<close>

record store =
  seenArticles :: "jstring list"
  seenFile :: "jstring list"

text \<open>\<open>xs[i]\<close> for a number \<open>i\<close>: \<open>undefined\<close> outside the indices of \<open>xs\<close>.\<close>

definition at_index :: "'a list \<Rightarrow> int \<Rightarrow> 'a option" where
  "at_index xs i = (if 0 \<le> i \<and> i < int (length xs) then Some (xs ! nat i) else None)"

text \<open>The per-keyword loop of \<open>searchWithNewsAPI\<close> and \<open>searchWithDuckDuckGo\<close>.\<close>

fun searchKeywords :: "(jstring \<Rightarrow> error + newsArticle list) \<Rightarrow> jstring list \<Rightarrow> newsArticle list" where
  "searchKeywords provider [] = []"
| "searchKeywords provider (keyword # keywords) =
     (case provider keyword of
        Inl e \<Rightarrow> searchKeywords provider keywords
      | Inr found \<Rightarrow> found @ searchKeywords provider keywords)"

definition newsKeywords :: "jstring list" where
  "newsKeywords =
     [js ''artificial intelligence breakthrough'', js ''AI advancement'',
      js ''machine learning progress'', js ''AI startup funding'',
      js ''AI research breakthrough'', js ''generative AI innovation'']"

definition AIGoodNewsAgent_searchAINews :: "surroundings \<Rightarrow> store \<Rightarrow> newsArticle list" where
  "AIGoodNewsAgent_searchAINews env s =
     (let allArticles = (if truthy (newsApiKey env) then searchKeywords (newsApi env) newsKeywords
                         else searchKeywords (duckDuckGo env) newsKeywords)
      in filter (\<lambda>a. newsUrl a \<notin> set (seenArticles s)) allArticles)"

definition positiveKeywords :: "jstring list" where
  "positiveKeywords =
     [js ''breakthrough'', js ''innovation'', js ''advancement'', js ''progress'',
      js ''success'', js ''achievement'', js ''improvement'']"

definition positiveScore :: "newsArticle \<Rightarrow> nat" where
  "positiveScore a =
     (let t = toLowerCase (newsTitle a @ js '' '' @ description a)
      in fold (\<lambda>keyword score. if includes_str t keyword then score + 1 else score)
           positiveKeywords 0)"

definition whyPositiveText :: jstring where
  "whyPositiveText = js ''This development represents positive progress in AI technology''"

definition keyPointsText :: "jstring list" where
  "keyPointsText =
     [js ''Advances the field of artificial intelligence'',
      js ''Demonstrates practical applications of AI'',
      js ''Shows continued innovation in the sector'']"

definition overallTrendText :: jstring where
  "overallTrendText =
     js ''The AI field continues to show positive developments with new breakthroughs and innovations emerging''
     @ js '' regularly.''"

definition fallbackAnalysis :: "newsArticle list \<Rightarrow> analysis" where
  "fallbackAnalysis articles =
     (let scored = map (\<lambda>(a, index). (a, positiveScore a, index))
                     (zip articles [0 ..< length articles]);
          top = slice0 (sortBy (\<lambda>(a, sa, ia) (b, sb, ib). real sb - real sa) scored) 3
      in \<lparr> topArticles =
             map (\<lambda>((a, sa, ia), r).
                    \<lparr> rank = r + 1,
                      topTitle = newsTitle a,
                      topSummary = description a,
                      whyPositive = whyPositiveText,
                      topKeyPoints = keyPointsText,
                      originalIndex = int ia \<rparr>)
                 (zip top [0 ..< length top]),
           overallTrend = overallTrendText \<rparr>)"

definition analysisPrompt :: "newsArticle list \<Rightarrow> jstring" where
  "analysisPrompt articles =
     [10]
     @ js ''Analyze these AI news articles and identify the most positive, breakthrough-worthy developments. ''
     @ [10]
     @ js ''Focus on genuine progress, innovations, and positive impacts of AI technology.''
     @ [10, 10] @ js ''Articles:'' @ [10]
     @ joinWith [10]
         (map (\<lambda>(a, i). [10] @ showNat (i + 1) @ js ''. Title: '' @ newsTitle a
                        @ [10] @ js ''   Description: '' @ description a
                        @ [10] @ js ''   Source: '' @ newsSource a @ [10])
              (zip articles [0 ..< length articles]))
     @ [10, 10] @ js ''Please:'' @ [10]
       @ js ''1. Rank the articles by their positive impact and innovation level''
       @ [10]
       @ js ''2. Identify the top 3 most significant positive developments''
       @ [10]
       @ js ''3. Explain why each is noteworthy and positive for the AI field''
       @ [10] @ js ''4. Provide a brief summary of each article'' @ [39]
       @ js ''s key points'' @ [10, 10]
       @ js ''Format your response as JSON with this structure:''
       @ [10, 123, 10] @ js ''  '' @ [34] @ js ''topArticles'' @ [34]
       @ js '': '' @ [91, 10] @ js ''    '' @ [123, 10] @ js ''      '' @ [34]
       @ js ''rank'' @ [34] @ js '': 1,'' @ [10] @ js ''      '' @ [34]
       @ js ''title'' @ [34] @ js '': '' @ [34] @ js ''...'' @ [34] @ js '',''
       @ [10] @ js ''      '' @ [34] @ js ''summary'' @ [34] @ js '': ''
       @ [34] @ js ''...'' @ [34] @ js '','' @ [10] @ js ''      '' @ [34]
       @ js ''whyPositive'' @ [34] @ js '': '' @ [34] @ js ''...'' @ [34]
       @ js '','' @ [10] @ js ''      '' @ [34] @ js ''keyPoints'' @ [34]
       @ js '': '' @ [91, 34] @ js ''...'' @ [34] @ js '', '' @ [34]
       @ js ''...'' @ [34, 93] @ js '','' @ [10] @ js ''      '' @ [34]
       @ js ''originalIndex'' @ [34] @ js '': 0'' @ [10] @ js ''    ''
       @ [125, 10] @ js ''  '' @ [93] @ js '','' @ [10] @ js ''  '' @ [34]
       @ js ''overallTrend'' @ [34] @ js '': '' @ [34]
       @ js ''Brief analysis of the overall positive trends in AI''
       @ [34, 10, 125, 10]"

text \<open>
  \<open>analyzeWithGemini\<close> and \<open>generateLinkedInPost\<close> return their result together with
  the prompts they sent over the network.
\<close>

definition analyzeWithGemini ::
  "surroundings \<Rightarrow> newsArticle list \<Rightarrow> (error + analysis) \<times> jstring list" where
  "analyzeWithGemini env articles =
     (if \<not> truthy (geminiApiKey env) then (Inr (fallbackAnalysis articles), [])
      else (let prompt = analysisPrompt articles
            in case geminiReply env prompt of
                 Inl e \<Rightarrow> (Inr (fallbackAnalysis articles), [prompt])
               | Inr t \<Rightarrow>
                   (case jsonParse env t of
                      Inl e \<Rightarrow> (Inr (fallbackAnalysis articles), [prompt])
                    | Inr a \<Rightarrow> (Inr a, [prompt]))))"

definition generateFallbackPost :: "analysis \<Rightarrow> newsArticle list \<Rightarrow> error + jstring" where
  "generateFallbackPost a articles =
     (case topArticles a of
        [] \<Rightarrow> Inl TypeError
      | topArticle # others \<Rightarrow>
          (case at_index articles (originalIndex topArticle) of
             None \<Rightarrow> Inl TypeError
           | Some originalArticle \<Rightarrow>
               Inr ([55357, 56960] @ js '' Exciting developments in AI! ''
                    @ [10, 10]
                    @ topTitle topArticle @ [10, 10] @ topSummary topArticle
                    @ [10, 10]
                      @ js ''This is exactly the kind of positive progress we need to see in artificial intelligence - innovation''
                      @ js '' that moves the field forward and creates real value.''
                      @ [10, 10]
                      @ js ''What are your thoughts on this development? How do you see AI evolving in your industry?''
                      @ [10, 10]
                      @ js ''#ArtificialIntelligence #AI #Innovation #Technology #FutureOfWork''
                      @ [10, 10] @ js ''Source: ''
                    @ newsUrl originalArticle)))"

definition formatLinkedInPost :: "jstring \<Rightarrow> jstring \<Rightarrow> jstring" where
  "formatLinkedInPost p source_url =
     (if \<not> includes_str p (js ''http'') \<and> source_url \<noteq> []
      then p @ [10, 10] @ js ''Source: '' @ source_url else p)"

text \<open>The guidelines that end the prompt for the post text.\<close>

definition postGuidelines :: jstring where
  "postGuidelines =
     [10, 10] @ js ''Guidelines:'' @ [10]
     @ js ''- Start with an engaging hook that captures attention'' @ [10]
     @ js ''- Highlight the positive impact and innovation'' @ [10]
     @ js ''- Keep it professional but enthusiastic'' @ [10]
     @ js ''- Include relevant hashtags (3-5 maximum)'' @ [10]
     @ js ''- End with a question to encourage engagement'' @ [10]
     @ js ''- Keep under 1300 characters for optimal LinkedIn performance'' @ [10]
     @ js ''- Include the source link at the end'' @ [10, 10]
     @ js ''Make it sound authentic and optimistic about AI'' @ [39] @ js ''s future.'' @ [10]"

definition postPrompt :: "topArticle \<Rightarrow> newsArticle \<Rightarrow> jstring" where
  "postPrompt topArticle originalArticle =
     ([10] @ js ''Create an engaging LinkedIn post about this positive AI development:''
        @ [10, 10] @ js ''Title: '') @ topTitle topArticle
     @ ([10] @ js ''Summary: '') @ topSummary topArticle
     @ ([10] @ js ''Why it'' @ [39] @ js ''s positive: '') @ whyPositive topArticle
     @ ([10] @ js ''Key points: '') @ joinWith (js '', '') (topKeyPoints topArticle)
     @ ([10] @ js ''Source: '') @ newsSource originalArticle
     @ postGuidelines"

definition generateLinkedInPost ::
  "surroundings \<Rightarrow> analysis \<Rightarrow> newsArticle list \<Rightarrow> (error + jstring) \<times> jstring list" where
  "generateLinkedInPost env a articles =
     (if \<not> truthy (geminiApiKey env) then (generateFallbackPost a articles, [])
      else case topArticles a of
             [] \<Rightarrow> (Inl TypeError, [])
           | topArticle # others \<Rightarrow>
               (case at_index articles (originalIndex topArticle) of
                  None \<Rightarrow> (Inl TypeError, [])
                | Some originalArticle \<Rightarrow>
                    (let prompt = postPrompt topArticle originalArticle
                     in case geminiReply env prompt of
                          Inl e \<Rightarrow> (generateFallbackPost a articles, [prompt])
                        | Inr p \<Rightarrow>
                            (Inr (formatLinkedInPost p (newsUrl originalArticle)), [prompt]))))"

text \<open>Step 4 of \<open>run\<close>: the urls not yet in the list are pushed, in order.\<close>

definition markSeen :: "jstring list \<Rightarrow> newsArticle list \<Rightarrow> jstring list" where
  "markSeen seen articles =
     fold (\<lambda>a acc. if newsUrl a \<notin> set acc then acc @ [newsUrl a] else acc) articles seen"

definition saveSeenArticles :: "surroundings \<Rightarrow> store \<Rightarrow> error + store" where
  "saveSeenArticles env s =
     (if writeFails env then Inl WriteFailed else Inr (s\<lparr> seenFile := seenArticles s \<rparr>))"

text \<open>The articles of the result: each top article with the url and source it points to.\<close>

fun resultArticles ::
  "newsArticle list \<Rightarrow> topArticle list \<Rightarrow> error + (topArticle \<times> jstring \<times> jstring) list" where
  "resultArticles articles [] = Inr []"
| "resultArticles articles (t # ts) =
     (case at_index articles (originalIndex t) of
        None \<Rightarrow> Inl TypeError
      | Some original \<Rightarrow>
          (case resultArticles articles ts of
             Inl e \<Rightarrow> Inl e
           | Inr rest \<Rightarrow> Inr ((t, newsUrl original, newsSource original) # rest)))"

datatype runResult =
    Success "(topArticle \<times> jstring \<times> jstring) list" jstring jstring
  | NoNewArticles
  | Failed error

text \<open>\<open>run\<close>: the result and the store it leaves behind.\<close>

definition AIGoodNewsAgent_run :: "surroundings \<Rightarrow> store \<Rightarrow> runResult \<times> store" where
  "AIGoodNewsAgent_run env s =
     (let articles = AIGoodNewsAgent_searchAINews env s
      in if articles = [] then (NoNewArticles, s)
         else case fst (analyzeWithGemini env articles) of
                Inl e \<Rightarrow> (Failed e, s)
              | Inr a \<Rightarrow>
                  (case fst (generateLinkedInPost env a articles) of
                     Inl e \<Rightarrow> (Failed e, s)
                   | Inr linkedinPost \<Rightarrow>
                       (let s1 = s\<lparr> seenArticles := markSeen (seenArticles s) articles \<rparr>
                        in case saveSeenArticles env s1 of
                             Inl e \<Rightarrow> (Failed e, s1)
                           | Inr s2 \<Rightarrow>
                               (case resultArticles articles (topArticles a) of
                                  Inl e \<Rightarrow> (Failed e, s2)
                                | Inr found \<Rightarrow>
                                    (Success found linkedinPost (overallTrend a), s2)))))"

section \<open>Auxiliary notions for the properties\<close>

text \<open>
  An article scored by the rule: its score is what \<open>calculateRelevanceScore\<close> returns
  for its summary and the query, and it passed the gate of the hit loops.
\<close>

definition scoredByRule :: "regexp_engine \<Rightarrow> jstring \<Rightarrow> article \<Rightarrow> bool" where
  "scoredByRule rx q a =
     (calculateRelevanceScore rx (summary a) q = Inr (relevanceScore a) \<and> 0.3 < relevanceScore a)"

text \<open>The scored and sorted list inside \<open>fallbackAnalysis\<close>, before the cut to three.\<close>

definition scoredArticles :: "newsArticle list \<Rightarrow> (newsArticle \<times> nat \<times> nat) list" where
  "scoredArticles articles =
     sortBy (\<lambda>(a, sa, ia) (b, sb, ib). real sb - real sa)
       (map (\<lambda>(a, index). (a, positiveScore a, index)) (zip articles [0 ..< length articles]))"

section \<open>Example inputs\<close>

text \<open>A host-name reader for the example urls: the text between \<open>https://\<close> and the next slash.\<close>

definition exampleHostname :: url_parser where
  "exampleHostname u =
     (if prefix (js ''https://'') u then Some (takeWhile (\<lambda>c. c \<noteq> 47) (drop 8 u)) else None)"

definition exampleQuery :: jstring where
  "exampleQuery = js ''machine learning''"

definition exampleResponse :: ddgResponse where
  "exampleResponse = \<lparr>
     AbstractURL = js ''https://en.wikipedia.org/wiki/Machine_learning'',
     AbstractText = js ''Machine learning is a field of study in artificial intelligence''
       @ js '' concerned with the development of statistical algorithms.'',
     Heading = js ''Machine learning'',
     RelatedTopics = Some [Topic \<lparr>
       FirstURL = js ''https://www.techcrunch.com/openai-breakthrough'',
       Text = [60] @ js ''b'' @ [62] @ js ''OpenAI'' @ [60] @ js ''/b'' @ [62]
         @ js '' announced a machine learning breakthrough in research on neural''
         @ js '' network training, with new funding for automation tools.'' \<rparr>],
     Results = None \<rparr>"

definition exampleTopicArticle :: article where
  "exampleTopicArticle = \<lparr>
     title = js ''OpenAI announced a machine learning breakthrough in research on''
       @ js '' neural network training, with new...'',
     url = js ''https://www.techcrunch.com/openai-breakthrough'',
     summary = js ''OpenAI announced a machine learning breakthrough in research on''
       @ js '' neural network training, with new funding for automation tools.'',
     source = js ''techcrunch.com'',
     publishedDate = 0,
     relevanceScore = 1,
     keyPoints = [],
     searchQuery = js ''machine learning'' \<rparr>"

definition firstReport :: article where
  "firstReport = \<lparr>
     title = js ''Breakthrough in training'',
     url = js ''https://example.org/news/1'',
     summary = js ''Researchers announced a machine learning breakthrough that lets a''
       @ js '' neural network train on far less data than before.'',
     source = js ''example.org'',
     publishedDate = 0,
     relevanceScore = 0.7,
     keyPoints = [],
     searchQuery = js ''machine learning'' \<rparr>"

definition secondReport :: article where
  "secondReport = \<lparr>
     title = js ''Breakthrough in training, again'',
     url = js ''https://example.org/news/1'',
     summary = js ''A second report on the same machine learning breakthrough,''
       @ js '' published later under the same address by another desk.'',
     source = js ''example.org'',
     publishedDate = 0,
     relevanceScore = 0.8,
     keyPoints = [],
     searchQuery = js ''neural networks'' \<rparr>"


text \<open>An article whose address is 2992 characters long.\<close>

definition longUrlArticle :: article where
  "longUrlArticle = \<lparr>
     title = js ''OpenAI research update'',
     url = js ''https://example.com/article?ref='' @ replicate 2960 97,
     summary = js ''OpenAI announced new research.'',
     source = js ''example.com'',
     publishedDate = 0,
     relevanceScore = 0.9,
     keyPoints = [],
     searchQuery = js ''OpenAI'' \<rparr>"

definition exampleNews :: "newsArticle list" where
  "exampleNews =
     [\<lparr> newsTitle = js ''Chip maker reports earnings'',
         description = js ''Quarterly numbers were flat.'',
         newsUrl = js ''https://example.org/a'',
         newsSource = js ''example.org'',
         publishedAt = js ''2025-01-01T00:00:00.000Z'',
         articleContent = js ''Quarterly numbers were flat.'' \<rparr>,
      \<lparr> newsTitle = js ''Progress in protein folding'',
         description = js ''A success for the lab.'',
         newsUrl = js ''https://example.org/b'',
         newsSource = js ''example.org'',
         publishedAt = js ''2025-01-01T00:00:00.000Z'',
         articleContent = js ''A success for the lab.'' \<rparr>,
      \<lparr> newsTitle = js ''Breakthrough in AI reasoning'',
         description = js ''An innovation and an advancement, with real progress.'',
         newsUrl = js ''https://example.org/c'',
         newsSource = js ''example.org'',
         publishedAt = js ''2025-01-01T00:00:00.000Z'',
         articleContent = js ''An innovation and an advancement.'' \<rparr>,
      \<lparr> newsTitle = js ''New AI startup'',
         description = js ''An improvement on earlier tools.'',
         newsUrl = js ''https://example.org/d'',
         newsSource = js ''example.org'',
         publishedAt = js ''2025-01-01T00:00:00.000Z'',
         articleContent = js ''An improvement on earlier tools.'' \<rparr>]"

definition store0 :: store where
  "store0 = \<lparr> seenArticles = [js ''https://example.org/old''],
               seenFile = [js ''https://example.org/old''] \<rparr>"

text \<open>No credential: the search finds the example articles for its first keyword.\<close>

definition envNoKey :: surroundings where
  "envNoKey = \<lparr>
     geminiApiKey = None,
     newsApiKey = None,
     geminiReply = (\<lambda>prompt. Inl RequestFailed),
     jsonParse = (\<lambda>t. Inl SyntaxError),
     newsApi = (\<lambda>keyword. Inl RequestFailed),
     duckDuckGo = (\<lambda>keyword. if keyword = js ''artificial intelligence breakthrough''
                              then Inr exampleNews else Inr []),
     writeFails = False \<rparr>"

text \<open>A backend whose analysis names the article at index 5, of four.\<close>

definition indexFiveAnalysis :: analysis where
  "indexFiveAnalysis = \<lparr>
     topArticles = [\<lparr> rank = 1, topTitle = js ''Breakthrough in AI reasoning'',
                      topSummary = js ''An innovation.'', whyPositive = js ''It helps.'',
                      topKeyPoints = [js ''Faster'', js ''Cheaper''], originalIndex = 5 \<rparr>],
     overallTrend = js ''Steady progress.'' \<rparr>"

definition envIndexFive :: surroundings where
  "envIndexFive = envNoKey \<lparr>
     geminiApiKey := Some (js ''key''),
     geminiReply := (\<lambda>prompt. Inr (js ''reply'')),
     jsonParse := (\<lambda>t. Inr indexFiveAnalysis) \<rparr>"

text \<open>A backend whose analysis holds no top article.\<close>

definition envNoTopArticle :: surroundings where
  "envNoTopArticle = envNoKey \<lparr>
     geminiApiKey := Some (js ''key''),
     geminiReply := (\<lambda>prompt. Inr (js ''reply'')),
     jsonParse := (\<lambda>t. Inr \<lparr> topArticles = [], overallTrend = js ''Steady progress.'' \<rparr>) \<rparr>"

text \<open>A backend that writes 3500 characters, and one that writes its own tags and link.\<close>

definition envLongText :: surroundings where
  "envLongText = envNoKey \<lparr>
     geminiApiKey := Some (js ''key''),
     geminiReply := (\<lambda>prompt. Inr (replicate 3500 97)) \<rparr>"

definition envOwnTags :: surroundings where
  "envOwnTags = envNoKey \<lparr>
     geminiApiKey := Some (js ''key''),
     geminiReply := (\<lambda>prompt. Inr (js ''Big news for AI! #AI #Tech https://example.org/c'')) \<rparr>"

section \<open>Properties of the sorting and slicing helpers\<close>

lemma set_insertSorted: "set (insertSorted cmp x ys) = insert x (set ys)"
  by (induction ys) auto

lemma set_sortBy: "set (sortBy cmp xs) = set xs"
  unfolding sortBy_def by (induction xs) (simp_all add: set_insertSorted)

lemma distinct_map_insertSorted:
  "distinct (map f (insertSorted cmp x ys)) = (f x \<notin> f ` set ys \<and> distinct (map f ys))"
  by (induction ys) (auto simp: set_insertSorted)

lemma distinct_map_sortBy: "distinct (map f (sortBy cmp xs)) = distinct (map f xs)"
  unfolding sortBy_def
  by (induction xs) (simp_all add: distinct_map_insertSorted set_sortBy [unfolded sortBy_def])

lemma set_slice0: "set (slice0 xs n) \<subseteq> set xs"
  unfolding slice0_def by (auto dest: in_set_takeD)

lemma distinct_map_slice0: "distinct (map f xs) \<Longrightarrow> distinct (map f (slice0 xs n))"
  unfolding slice0_def by (simp add: take_map [symmetric] del: take_map)

lemma findIndex_ge: "- 1 \<le> findIndex p xs"
  by (induction xs) (auto simp: Let_def)

lemma findIndex_first:
  "findIndex p xs = int i \<longleftrightarrow> i < length xs \<and> p (xs ! i) \<and> (\<forall>j < i. \<not> p (xs ! j))"
proof (induction xs arbitrary: i)
  case Nil
  show ?case by simp
next
  case (Cons x xs)
  show ?case
  proof (cases "p x")
    case True
    then show ?thesis by (cases i) auto
  next
    case False
    show ?thesis
    proof (cases i)
      case 0
      with False findIndex_ge [of p xs] show ?thesis by (auto simp: Let_def)
    next
      case (Suc k)
      have "findIndex p (x # xs) = int (Suc k) \<longleftrightarrow> findIndex p xs = int k"
        using False findIndex_ge [of p xs] by (auto simp: Let_def)
      also have "\<dots> \<longleftrightarrow> k < length xs \<and> p (xs ! k) \<and> (\<forall>j < k. \<not> p (xs ! j))"
        by (rule Cons.IH)
      also have "\<dots> \<longleftrightarrow> Suc k < length (x # xs) \<and> p ((x # xs) ! Suc k)
                       \<and> (\<forall>j < Suc k. \<not> p ((x # xs) ! j))"
        using False by (auto simp: less_Suc_eq_0_disj)
      finally show ?thesis using Suc by simp
    qed
  qed
qed

lemma in_uniqueArticles:
  "a \<in> set (uniqueArticles xs) \<longleftrightarrow>
     (\<exists>i < length xs. xs ! i = a \<and> (\<forall>j < i. url (xs ! j) \<noteq> url a))"
proof -
  have "a \<in> set (uniqueArticles xs) \<longleftrightarrow>
          (\<exists>i < length xs. xs ! i = a \<and> int i = findIndex (\<lambda>b. url b = url a) xs)"
    unfolding uniqueArticles_def by (force simp: set_zip image_iff)
  also have "\<dots> \<longleftrightarrow> (\<exists>i < length xs. xs ! i = a \<and> (\<forall>j < i. url (xs ! j) \<noteq> url a))"
    using findIndex_first [of "\<lambda>b. url b = url a" xs] by (metis (mono_tags, lifting))
  finally show ?thesis .
qed

lemma distinct_uniqueArticles: "distinct (map url (uniqueArticles xs))"
proof -
  let ?P = "\<lambda>(a, index). int index = findIndex (\<lambda>b. url b = url a) xs"
  let ?zs = "filter ?P (zip xs [0 ..< length xs])"
  have d: "distinct ?zs"
    by (rule distinct_filter) (simp add: distinct_zipI2)
  have inj: "inj_on (url \<circ> fst) (set ?zs)"
  proof (rule inj_onI)
    fix p q assume p: "p \<in> set ?zs" and q: "q \<in> set ?zs" and e: "(url \<circ> fst) p = (url \<circ> fst) q"
    obtain a i where pa: "p = (a, i)" by (cases p)
    obtain b j where qb: "q = (b, j)" by (cases q)
    from p pa have 1: "i < length xs" "xs ! i = a" "int i = findIndex (\<lambda>c. url c = url a) xs"
      by (auto simp: set_zip)
    from q qb have 2: "j < length xs" "xs ! j = b" "int j = findIndex (\<lambda>c. url c = url b) xs"
      by (auto simp: set_zip)
    from e pa qb have "url a = url b" by simp
    with 1 2 have "i = j" by simp
    with 1 2 pa qb show "p = q" by simp
  qed
  have "distinct (map (url \<circ> fst) ?zs)"
    using d inj by (simp add: distinct_map)
  then show ?thesis
    unfolding uniqueArticles_def by (simp add: comp_def)
qed

lemma in_filterAndRankArticles:
  "a \<in> set (filterAndRankArticles cfg xs) \<Longrightarrow> isQualityArticle cfg a \<and> a \<in> set (uniqueArticles xs)"
  unfolding filterAndRankArticles_def Let_def
  using set_slice0 [of "sortBy (compareArticles cfg) (filter (isQualityArticle cfg) (uniqueArticles xs))" "maxResults cfg"]
  by (auto simp: set_sortBy)


lemma length_insertSorted: "length (insertSorted cmp x ys) = Suc (length ys)"
  by (induction ys) auto

lemma length_sortBy: "length (sortBy cmp xs) = length xs"
  unfolding sortBy_def by (induction xs) (simp_all add: length_insertSorted)

lemma sorted_insertSorted:
  fixes key :: "'a \<Rightarrow> nat"
  assumes "\<And>x y. cmp x y = real (key y) - real (key x)"
    and "sorted_wrt (\<lambda>x y. key y \<le> key x) ys"
  shows "sorted_wrt (\<lambda>x y. key y \<le> key x) (insertSorted cmp x ys)"
  using assms(2)
proof (induction ys)
  case Nil
  show ?case by simp
next
  case (Cons y ys)
  show ?case
  proof (cases "cmp x y \<le> 0")
    case True
    then have "key y \<le> key x" using assms(1) [of x y] by simp
    with True Cons.prems show ?thesis by (auto intro: order_trans)
  next
    case False
    then have "key x \<le> key y" using assms(1) [of x y] by simp
    with False Cons show ?thesis by (auto simp: set_insertSorted)
  qed
qed

lemma sorted_sortBy:
  fixes key :: "'a \<Rightarrow> nat"
  assumes "\<And>x y. cmp x y = real (key y) - real (key x)"
  shows "sorted_wrt (\<lambda>x y. key y \<le> key x) (sortBy cmp xs)"
  unfolding sortBy_def
  by (induction xs) (simp_all add: sorted_insertSorted [OF assms])


section \<open>The example inputs, evaluated\<close>

lemma includes_str_subset: "includes_str t p \<Longrightarrow> set p \<subseteq> set t"
proof (induction t)
  case Nil
  then show ?case by simp
next
  case (Cons c cs)
  from Cons.prems have "prefix p (c # cs) \<or> includes_str cs p" by simp
  then show ?case
  proof
    assume "prefix p (c # cs)"
    then show ?thesis by (rule set_mono_prefix)
  next
    assume "includes_str cs p"
    with Cons.IH show ?thesis by auto
  qed
qed

lemma example_parsed:
  "parseSearchResults dot_literal_regexp exampleHostname 0 exampleResponse exampleQuery
     = [abstractArticle exampleHostname 0 exampleResponse exampleQuery, exampleTopicArticle]"
  by code_simp

lemma exampleNews_indices:
  "map originalIndex (topArticles (fallbackAnalysis exampleNews)) = [2, 1, 3]"
  by code_simp

lemma exampleNews_found:
  "AIGoodNewsAgent_searchAINews envNoKey store0 = exampleNews"
  by code_simp

section \<open>Properties of relevance scoring\<close>

lemma termBoost_sum:
  "termBoost t terms w s = s + w * real (length (filter (includes_str t) terms))"
  unfolding termBoost_def
  by (induction terms arbitrary: s) (simp_all add: algebra_simps)

lemma queryWordScore_literal:
  "\<forall>w \<in> set ws. length w > 2 \<longrightarrow> rx w t = Some (count_occurrences w t) \<Longrightarrow>
   queryWordScore rx t ws s =
     Inr (s + 0.15 * real (sum_list (map (\<lambda>w. count_occurrences w t) (filter (\<lambda>w. length w > 2) ws))))"
  by (induction ws arbitrary: s) (simp_all add: algebra_simps)

lemma queryWordScore_mono: "queryWordScore rx t ws s = Inr s' \<Longrightarrow> s \<le> s'"
proof (induction ws arbitrary: s)
  case Nil
  then show ?case by simp
next
  case (Cons w ws)
  show ?case
  proof (cases "length w > 2")
    case False
    with Cons show ?thesis by simp
  next
    case True
    with Cons.prems obtain m where m: "rx w t = Some m"
      and r: "queryWordScore rx t ws (s + real m * 0.15) = Inr s'"
      by (auto split: option.splits)
    have "0 \<le> real m * 0.15" by simp
    with Cons.IH [OF r] show ?thesis by linarith
  qed
qed

lemma calculateRelevanceScore_range:
  assumes "calculateRelevanceScore rx text query = Inr s"
  shows "0 \<le> s \<and> s \<le> 1"
proof -
  from assms obtain s0 where
    q: "queryWordScore rx (toLowerCase text) (split_at (\<lambda>c. c = 32) (toLowerCase query)) 0 = Inr s0"
    and s: "s = min (termBoost (toLowerCase text) newsTerms 0.1
                      (termBoost (toLowerCase text) mediumValueTerms 0.2
                        (termBoost (toLowerCase text) highValueTerms 0.3 s0))) 1"
    unfolding calculateRelevanceScore_def Let_def by (auto split: sum.splits)
  have "0 \<le> s0" using queryWordScore_mono [OF q] .
  then show ?thesis unfolding s termBoost_sum by simp
qed

lemma calculateRelevanceScore_formula:
  assumes "\<forall>w \<in> set (split_at (\<lambda>c. c = 32) (toLowerCase query)).
             length w > 2 \<longrightarrow> rx w (toLowerCase text) = Some (count_occurrences w (toLowerCase text))"
  shows "calculateRelevanceScore rx text query = Inr (relevance_formula text query)"
proof -
  let ?t = "toLowerCase text" and ?ws = "split_at (\<lambda>c. c = 32) (toLowerCase query)"
  have "queryWordScore rx ?t ?ws 0 =
     Inr (0 + 0.15 * real (sum_list (map (\<lambda>w. count_occurrences w ?t) (filter (\<lambda>w. length w > 2) ?ws))))"
    using assms by (rule queryWordScore_literal)
  then show ?thesis
    unfolding calculateRelevanceScore_def relevance_formula_def Let_def
    by (simp add: termBoost_sum min.commute)
qed

lemma rx_matches_at_literal:
  "46 \<notin> set pat \<Longrightarrow> rx_matches_at pat t = prefix pat t"
  by (induction pat t rule: rx_matches_at.induct) (auto simp: rx_unit_matches_def)

lemma rx_count_literal: "46 \<notin> set pat \<Longrightarrow> rx_count pat t = count_occurrences pat t"
proof (induction pat t rule: rx_count.induct)
  case (1 pat t)
  show ?case
    apply (subst rx_count.simps)
    apply (subst count_occurrences.simps)
    using 1 by (simp add: rx_matches_at_literal)
qed

lemma dot_literal_regexp_literal:
  "\<forall>c \<in> set w. \<not> rx_syntax_char c \<Longrightarrow> dot_literal_regexp w t = Some (count_occurrences w t)"
proof -
  assume a: "\<forall>c \<in> set w. \<not> rx_syntax_char c"
  then have "46 \<notin> set w" by (auto simp: rx_syntax_char_def)
  with a show ?thesis
    unfolding dot_literal_regexp_def by (simp add: rx_count_literal list_all_iff)
qed

text \<open>
  Claim C7. The score is meant to be: 0.15 per occurrence of each query keyword longer
  than two characters, plus 0.3, 0.2 and 0.1 per high-value, medium-value and news-action
  term present, clamped to 1 (\<open>relevance_formula\<close>). The source counts the matches of
  \<open>new RegExp(word, "g")\<close>, so a keyword is read as a pattern: for the keyword
  \<open>gpt-3.5\<close> the dot matches the comma of \<open>GPT-3,5\<close>, and the text is credited 0.15 for
  a keyword that does not occur in it. (\<open>calculateRelevanceScore_formula\<close> shows that the
  two agree whenever the engine finds exactly the literal occurrences.)
\<close>

theorem calculateRelevanceScore_keyword_as_pattern:
  "calculateRelevanceScore dot_literal_regexp
      (js ''OpenAI announced GPT-3,5 Turbo pricing'') (js ''GPT-3.5'') = Inr 0.65
   \<and> relevance_formula (js ''OpenAI announced GPT-3,5 Turbo pricing'') (js ''GPT-3.5'') = 0.5"
  by code_simp

section \<open>Properties of the normalizer\<close>

lemma processItems_scored:
  assumes "\<forall>a \<in> set acc. P a"
    and "\<And>a. scoredByRule rx q a \<Longrightarrow> P a"
  shows "\<forall>a \<in> set (fst (processItems rx hostname now q items acc)). P a"
  using assms(1)
proof (induction items arbitrary: acc)
  case Nil
  then show ?case by simp
next
  case (Cons item items)
  show ?case
  proof (cases "FirstURL item \<noteq> [] \<and> Text item \<noteq> [] \<and> length (trim (stripTags (Text item))) > 100")
    case False
    then show ?thesis using Cons.IH [OF Cons.prems] by (auto simp: Let_def)
  next
    case True
    show ?thesis
    proof (cases "calculateRelevanceScore rx (trim (stripTags (Text item))) q")
      case (Inl e)
      then show ?thesis using True Cons.prems by (simp add: Let_def)
    next
      case (Inr score)
      let ?a = "\<lparr> title = extractTitleFromText (trim (stripTags (Text item))),
                  url = FirstURL item,
                  summary = trim (stripTags (Text item)),
                  source = extractDomain hostname (FirstURL item),
                  publishedDate = now,
                  relevanceScore = score,
                  keyPoints = [],
                  searchQuery = q \<rparr>"
      show ?thesis
      proof (cases "isNewsWorthy (trim (stripTags (Text item))) \<and> score > 0.3")
        case False
        then show ?thesis using True Inr Cons.IH [OF Cons.prems] by (auto simp: Let_def)
      next
        case keep: True
        have "scoredByRule rx q ?a" using Inr keep by (simp add: scoredByRule_def)
        then have "P ?a" by (rule assms(2))
        with Cons.prems have "\<forall>a \<in> set (acc @ [?a]). P a" by simp
        from Cons.IH [OF this] show ?thesis using True Inr keep by (simp add: Let_def)
      qed
    qed
  qed
qed

lemma processTopics_scored:
  assumes "\<forall>a \<in> set acc. P a"
    and "\<And>a. scoredByRule rx q a \<Longrightarrow> P a"
  shows "\<forall>a \<in> set (fst (processTopics rx hostname now q topics acc)). P a"
  using assms(1)
proof (induction topics arbitrary: acc)
  case Nil
  then show ?case by simp
next
  case (Cons topic topics)
  let ?its = "case topic of Group ts \<Rightarrow> ts | Topic t \<Rightarrow> [t]"
  obtain acc' thrown where p: "processItems rx hostname now q ?its acc = (acc', thrown)"
    by (cases "processItems rx hostname now q ?its acc")
  have acc': "\<forall>a \<in> set acc'. P a"
    using processItems_scored [of acc P rx q hostname now ?its, OF Cons.prems assms(2)] p by simp
  show ?case
  proof (cases thrown)
    case None
    then show ?thesis using p Cons.IH [OF acc'] by (simp add: Let_def)
  next
    case (Some e)
    then show ?thesis using p acc' by (simp add: Let_def)
  qed
qed

lemma parseSearchResults_scored:
  assumes "P (abstractArticle hostname now d q)"
    and "\<And>a. scoredByRule rx q a \<Longrightarrow> P a"
  shows "\<forall>a \<in> set (parseSearchResults rx hostname now d q). P a"
proof -
  let ?a0 = "if AbstractURL d \<noteq> [] \<and> AbstractText d \<noteq> []
                \<and> length (AbstractText d) > 50
                \<and> isNewsWorthy (summary (abstractArticle hostname now d q))
             then [abstractArticle hostname now d q] else []"
  have a0: "\<forall>a \<in> set ?a0. P a" using assms(1) by simp
  let ?r1 = "case RelatedTopics d of
               None \<Rightarrow> (?a0, None)
             | Some topics \<Rightarrow> processTopics rx hostname now q topics ?a0"
  obtain a1 t1 where r1: "?r1 = (a1, t1)" by (cases ?r1)
  have a1: "\<forall>a \<in> set a1. P a"
  proof (cases "RelatedTopics d")
    case None
    with r1 a0 show ?thesis by auto
  next
    case (Some topics)
    with r1 processTopics_scored [of ?a0 P rx q hostname now topics, OF a0 assms(2)]
    show ?thesis by simp
  qed
  have res: "parseSearchResults rx hostname now d q =
          (case t1 of Some e \<Rightarrow> a1
           | None \<Rightarrow> (case Results d of None \<Rightarrow> a1
                       | Some results \<Rightarrow> fst (processItems rx hostname now q results a1)))"
    unfolding parseSearchResults_def Let_def using r1 by simp
  show ?thesis
    unfolding res
    using a1 processItems_scored [of a1 P rx q hostname now, OF a1 assms(2)]
    by (auto split: option.splits)
qed

lemma parseSearchResults_range:
  assumes "a \<in> set (parseSearchResults rx hostname now d q)"
  shows "0 \<le> relevanceScore a \<and> relevanceScore a \<le> 1"
proof -
  have "\<forall>a \<in> set (parseSearchResults rx hostname now d q). 0 \<le> relevanceScore a \<and> relevanceScore a \<le> 1"
  proof (rule parseSearchResults_scored)
    show "0 \<le> relevanceScore (abstractArticle hostname now d q)
          \<and> relevanceScore (abstractArticle hostname now d q) \<le> 1"
      by (simp add: abstractArticle_def)
  next
    fix a assume "scoredByRule rx q a"
    then show "0 \<le> relevanceScore a \<and> relevanceScore a \<le> 1"
      unfolding scoredByRule_def using calculateRelevanceScore_range by blast
  qed
  with assms show ?thesis by blast
qed


text \<open>
  Claim C10, as amended. Every article built by \<open>parseSearchResults\<close> has a score in
  [0,1]. An article built from a related topic or a result carries the score that
  \<open>calculateRelevanceScore\<close> gives for its text and the query; the article built from
  the direct abstract carries the fixed score 0.9.
\<close>

theorem parseSearchResults_scores:
  assumes "a \<in> set (parseSearchResults rx hostname now d q)"
  shows "0 \<le> relevanceScore a \<and> relevanceScore a \<le> 1 \<and>
         ((a = abstractArticle hostname now d q \<and> relevanceScore a = 0.9)
          \<or> calculateRelevanceScore rx (summary a) q = Inr (relevanceScore a))"
proof -
  have "\<forall>a \<in> set (parseSearchResults rx hostname now d q).
          (a = abstractArticle hostname now d q \<and> relevanceScore a = 0.9)
          \<or> calculateRelevanceScore rx (summary a) q = Inr (relevanceScore a)"
  proof (rule parseSearchResults_scored)
    show "(abstractArticle hostname now d q = abstractArticle hostname now d q
             \<and> relevanceScore (abstractArticle hostname now d q) = 0.9)
          \<or> calculateRelevanceScore rx (summary (abstractArticle hostname now d q)) q
               = Inr (relevanceScore (abstractArticle hostname now d q))"
      by (simp add: abstractArticle_def)
  next
    fix a assume "scoredByRule rx q a"
    then show "(a = abstractArticle hostname now d q \<and> relevanceScore a = 0.9)
          \<or> calculateRelevanceScore rx (summary a) q = Inr (relevanceScore a)"
      by (simp add: scoredByRule_def)
  qed
  with assms parseSearchResults_range [OF assms] show ?thesis by blast
qed


text \<open>
  The claim as first stated fails for the direct abstract: the example response yields
  the abstract article with the score 0.9, where the scoring rule gives 1 for its text.
\<close>

theorem parseSearchResults_abstract_counterexample:
  "abstractArticle exampleHostname 0 exampleResponse exampleQuery
     \<in> set (parseSearchResults dot_literal_regexp exampleHostname 0 exampleResponse exampleQuery)
   \<and> relevanceScore (abstractArticle exampleHostname 0 exampleResponse exampleQuery) = 0.9
   \<and> calculateRelevanceScore dot_literal_regexp
        (summary (abstractArticle exampleHostname 0 exampleResponse exampleQuery)) exampleQuery
       = Inr 1"
proof -
  have "calculateRelevanceScore dot_literal_regexp
        (summary (abstractArticle exampleHostname 0 exampleResponse exampleQuery)) exampleQuery
       = Inr 1"
    by code_simp
  then show ?thesis
    by (simp add: example_parsed) (simp add: abstractArticle_def)
qed

text \<open>The amended statement at the article built from the related topic of the example.\<close>

theorem parseSearchResults_scores_witness:
  "exampleTopicArticle
     \<in> set (parseSearchResults dot_literal_regexp exampleHostname 0 exampleResponse exampleQuery)
   \<and> calculateRelevanceScore dot_literal_regexp (summary exampleTopicArticle) exampleQuery
       = Inr (relevanceScore exampleTopicArticle)
   \<and> 0 \<le> relevanceScore exampleTopicArticle \<and> relevanceScore exampleTopicArticle \<le> 1"
proof -
  have m: "exampleTopicArticle
     \<in> set (parseSearchResults dot_literal_regexp exampleHostname 0 exampleResponse exampleQuery)"
    by (simp add: example_parsed)
  have c: "calculateRelevanceScore dot_literal_regexp (summary exampleTopicArticle) exampleQuery
       = Inr (relevanceScore exampleTopicArticle)"
    by code_simp
  from parseSearchResults_scores [OF m] m c show ?thesis by blast
qed

section \<open>Properties of the filter\<close>

text \<open>
  Claim C5. The list returned by \<open>filterAndRankArticles\<close> holds no two articles with the
  same url, and each article in it is the first article of the input with that url.
\<close>

theorem filterAndRankArticles_dedup:
  "distinct (map url (filterAndRankArticles cfg articles)) \<and>
   (\<forall>a \<in> set (filterAndRankArticles cfg articles).
      \<exists>i < length articles. articles ! i = a \<and> (\<forall>j < i. url (articles ! j) \<noteq> url a))"
proof
  have "distinct (map url (filter (isQualityArticle cfg) (uniqueArticles articles)))"
    using distinct_uniqueArticles [of articles] by (simp add: distinct_map_filter)
  then show "distinct (map url (filterAndRankArticles cfg articles))"
    unfolding filterAndRankArticles_def Let_def
    by (simp add: distinct_map_slice0 distinct_map_sortBy)
next
  show "\<forall>a \<in> set (filterAndRankArticles cfg articles).
      \<exists>i < length articles. articles ! i = a \<and> (\<forall>j < i. url (articles ! j) \<noteq> url a)"
    using in_filterAndRankArticles [of _ cfg articles] in_uniqueArticles [of _ articles] by blast
qed


text \<open>Two reports under one url: the first is kept, the second dropped.\<close>

theorem filterAndRankArticles_dedup_witness:
  "filterAndRankArticles CONFIG [firstReport, secondReport] = [firstReport]
   \<and> url secondReport = url firstReport
   \<and> distinct (map url (filterAndRankArticles CONFIG [firstReport, secondReport]))"
proof -
  have "filterAndRankArticles CONFIG [firstReport, secondReport] = [firstReport]"
    by code_simp
  moreover have "url secondReport = url firstReport"
    by code_simp
  ultimately show ?thesis
    using filterAndRankArticles_dedup [of CONFIG "[firstReport, secondReport]"] by simp
qed

section \<open>Properties of the search stage\<close>

lemma requests_duckDuckGoSearch:
  "requests (snd (duckDuckGoSearch rx hostname net now s query timeframe)) =
     requests s @ [(query, timeframe)]"
  unfolding duckDuckGoSearch_def Let_def
  by (simp split: httpOutcome.splits option.splits)

lemma requests_performSearchLoop:
  "requests (snd (performSearchLoop rx hostname net now timeframe kws articles s)) =
     requests s @ map (\<lambda>k. (k, timeframe)) kws"
proof (induction kws arbitrary: articles s)
  case Nil
  show ?case by simp
next
  case (Cons k ks)
  obtain r s' where d: "duckDuckGoSearch rx hostname net now s k timeframe = (r, s')"
    by (cases "duckDuckGoSearch rx hostname net now s k timeframe")
  have s': "requests s' = requests s @ [(k, timeframe)]"
    using requests_duckDuckGoSearch [of rx hostname net now s k timeframe] d by simp
  show ?case
    using d s' Cons.IH by (cases r) simp_all
qed

lemma requests_cacheArticles: "requests (cacheArticles cfg now s articles query) = requests s"
  unfolding cacheArticles_def Let_def by simp


text \<open>
  The timeframe handed to \<open>duckDuckGoSearch\<close> is recorded in the call but does not reach
  the provider: what a call returns does not depend on it.
\<close>

lemma duckDuckGoSearch_timeframe_unused:
  "fst (duckDuckGoSearch rx hostname net now s query timeframe)
     = fst (duckDuckGoSearch rx hostname net now s query timeframe')"
  unfolding duckDuckGoSearch_def Let_def
  by (simp split: httpOutcome.splits option.splits)

text \<open>
  The calls of \<open>duckDuckGoSearch\<close> made by \<open>searchAINews\<close>: one batch over the keywords
  with the timeframe \<open>d\<close>, followed by exactly one batch with the timeframe \<open>w\<close> when
  the first batch gave no article, and by nothing otherwise.
\<close>

lemma searchAINews_call_log:
  "requests (snd (searchAINews cfg rx hostname net now s)) =
     requests s @ map (\<lambda>k. (k, js ''d'')) (aiKeywords cfg)
       @ (if fst (performSearch cfg rx hostname net now (js ''d'') s) = []
          then map (\<lambda>k. (k, js ''w'')) (aiKeywords cfg) else [])"
proof -
  obtain day s1 where p: "performSearch cfg rx hostname net now (js ''d'') s = (day, s1)"
    by (cases "performSearch cfg rx hostname net now (js ''d'') s")
  have r1: "requests s1 = requests s @ map (\<lambda>k. (k, js ''d'')) (aiKeywords cfg)"
    using requests_performSearchLoop [of rx hostname net now "js ''d''" "aiKeywords cfg" "[]" s] p
    unfolding performSearch_def by simp
  show ?thesis
  proof (cases "day = []")
    case True
    obtain week s2 where w: "performSearch cfg rx hostname net now (js ''w'') s1 = (week, s2)"
      by (cases "performSearch cfg rx hostname net now (js ''w'') s1")
    have r2: "requests s2 = requests s1 @ map (\<lambda>k. (k, js ''w'')) (aiKeywords cfg)"
      using requests_performSearchLoop [of rx hostname net now "js ''w''" "aiKeywords cfg" "[]" s1] w
      unfolding performSearch_def by simp
    show ?thesis
      unfolding searchAINews_def Let_def using p w True r1 r2
      by (simp add: requests_cacheArticles)
  next
    case False
    show ?thesis
      unfolding searchAINews_def Let_def using p False r1
      by (simp add: requests_cacheArticles)
  qed
qed

text \<open>What a request returns depends on the number of requests made before it, not on
  the timeframes that were handed over with them.\<close>

lemma duckDuckGoSearch_result:
  "length (requests s) = length (requests s') \<Longrightarrow>
   fst (duckDuckGoSearch rx hostname net now s query timeframe)
     = fst (duckDuckGoSearch rx hostname net now s' query timeframe')"
  unfolding duckDuckGoSearch_def Let_def
  by (simp split: httpOutcome.splits option.splits)

lemma performSearchLoop_result:
  "length (requests s) = length (requests s') \<Longrightarrow>
   fst (performSearchLoop rx hostname net now timeframe kws articles s)
     = fst (performSearchLoop rx hostname net now timeframe' kws articles s')"
proof (induction kws arbitrary: articles s s')
  case Nil
  show ?case by simp
next
  case (Cons k ks)
  obtain r s1 where d: "duckDuckGoSearch rx hostname net now s k timeframe = (r, s1)"
    by (cases "duckDuckGoSearch rx hostname net now s k timeframe")
  obtain r' s1' where d': "duckDuckGoSearch rx hostname net now s' k timeframe' = (r', s1')"
    by (cases "duckDuckGoSearch rx hostname net now s' k timeframe'")
  have r: "r' = r"
    using duckDuckGoSearch_result [OF Cons.prems, of rx hostname net now k timeframe timeframe'] d d'
    by simp
  have "length (requests s1) = length (requests s1')"
    using requests_duckDuckGoSearch [of rx hostname net now s k timeframe]
      requests_duckDuckGoSearch [of rx hostname net now s' k timeframe'] d d' Cons.prems
    by simp
  from Cons.IH [OF this] show ?case
    using d d' r by (cases r) simp_all
qed

text \<open>
  Claim C9. When the first batch gives no article the batch is meant to be searched
  again over the past week. The source does run a second batch, once, and hands it the
  timeframe \<open>w\<close> (\<open>searchAINews_call_log\<close>); but \<open>duckDuckGoSearch\<close> builds its request
  from the query alone, so the second batch asks the provider exactly what a batch with
  the timeframe \<open>d\<close> would ask at that moment, and gets the same articles: the search
  is repeated, not widened.
\<close>

theorem performSearch_timeframe_not_sent:
  "fst (performSearch cfg rx hostname net now (js ''w'') s)
     = fst (performSearch cfg rx hostname net now (js ''d'') s)"
  unfolding performSearch_def by (rule performSearchLoop_result) simp










section \<open>Properties of the local analysis\<close>

lemma fallbackAnalysis_alt:
  "topArticles (fallbackAnalysis articles) =
     map (\<lambda>((a, sa, ia), r).
            \<lparr> rank = r + 1, topTitle = newsTitle a, topSummary = description a,
              whyPositive = whyPositiveText, topKeyPoints = keyPointsText,
              originalIndex = int ia \<rparr>)
         (zip (take 3 (scoredArticles articles)) [0 ..< length (take 3 (scoredArticles articles))])"
  unfolding fallbackAnalysis_def scoredArticles_def Let_def slice0_def by simp

lemma length_scoredArticles: "length (scoredArticles articles) = length articles"
  unfolding scoredArticles_def by (simp add: length_sortBy)

lemma set_scoredArticles:
  "set (scoredArticles articles) = {(articles ! i, positiveScore (articles ! i), i) | i. i < length articles}"
proof -
  have "set (zip articles [0 ..< length articles]) = {(articles ! i, i) | i. i < length articles}"
  proof (rule set_eqI)
    fix p :: "newsArticle \<times> nat"
    obtain a j where p: "p = (a, j)" by (cases p)
    have "(a, j) \<in> set (zip articles [0 ..< length articles]) \<longleftrightarrow>
            j < length articles \<and> a = articles ! j"
      by (auto simp: set_zip)
    then show "p \<in> set (zip articles [0 ..< length articles]) \<longleftrightarrow>
            p \<in> {(articles ! i, i) | i. i < length articles}"
      using p by auto
  qed
  then show ?thesis
    unfolding scoredArticles_def set_sortBy by (auto simp: image_iff)
qed

lemma distinct_scoredArticles: "distinct (map (\<lambda>(a, s, i). i) (scoredArticles articles))"
proof -
  have "map (\<lambda>(a, s, i). i) (map (\<lambda>(a, index). (a, positiveScore a, index)) (zip articles [0 ..< length articles]))
        = [0 ..< length articles]"
    by (simp add: comp_def case_prod_beta)
  then show ?thesis
    unfolding scoredArticles_def by (simp add: distinct_map_sortBy)
qed

lemma sorted_scoredArticles:
  "sorted_wrt (\<lambda>x y. fst (snd y) \<le> fst (snd x)) (scoredArticles articles)"
  unfolding scoredArticles_def
  by (rule sorted_sortBy) (simp add: case_prod_beta)

lemma fallbackAnalysis_length:
  "length (topArticles (fallbackAnalysis articles)) = min 3 (length articles)"
  unfolding fallbackAnalysis_alt by (simp add: length_scoredArticles min.commute)

lemma map_zip_snd:
  "length xs = length ys \<Longrightarrow> map (\<lambda>(x, r). f r) (zip xs ys) = map f ys"
  by (induction xs ys rule: list_induct2) simp_all

lemma fallbackAnalysis_ranks:
  "map rank (topArticles (fallbackAnalysis articles)) = [1 ..< Suc (min 3 (length articles))]"
proof -
  let ?top = "take 3 (scoredArticles articles)"
  have "map rank (topArticles (fallbackAnalysis articles)) = map (\<lambda>(x, r). Suc r) (zip ?top [0 ..< length ?top])"
    unfolding fallbackAnalysis_alt by (simp add: comp_def case_prod_beta)
  also have "\<dots> = map Suc [0 ..< length ?top]"
    by (rule map_zip_snd) simp
  also have "\<dots> = [1 ..< Suc (length ?top)]"
    by (simp only: map_Suc_upt One_nat_def)
  finally show ?thesis by (simp add: length_scoredArticles min.commute)
qed

lemma fallbackAnalysis_entries:
  assumes "t \<in> set (topArticles (fallbackAnalysis articles))"
  shows "whyPositive t = whyPositiveText \<and> topKeyPoints t = keyPointsText
       \<and> (\<exists>i < length articles. originalIndex t = int i
             \<and> topTitle t = newsTitle (articles ! i) \<and> topSummary t = description (articles ! i))"
proof -
  let ?top = "take 3 (scoredArticles articles)"
  from assms obtain a sa ia r where m: "((a, sa, ia), r) \<in> set (zip ?top [0 ..< length ?top])"
    and t: "t = \<lparr> rank = r + 1, topTitle = newsTitle a, topSummary = description a,
              whyPositive = whyPositiveText, topKeyPoints = keyPointsText,
              originalIndex = int ia \<rparr>"
    unfolding fallbackAnalysis_alt by auto
  from m have "(a, sa, ia) \<in> set (scoredArticles articles)"
    by (auto dest: set_zip_leftD in_set_takeD)
  then have "ia < length articles" "a = articles ! ia"
    unfolding set_scoredArticles by auto
  with t show ?thesis by auto
qed

lemma sorted_wrt_zip_fst:
  "length xs = length ys \<Longrightarrow>
   sorted_wrt (\<lambda>p q. R (fst p) (fst q)) (zip xs ys) = sorted_wrt R xs"
proof (induction xs ys rule: list_induct2)
  case Nil
  show ?case by simp
next
  case (Cons x xs y ys)
  have "(\<forall>p \<in> set (zip xs ys). R x (fst p)) \<longleftrightarrow> (\<forall>z \<in> set xs. R x z)"
    using Cons.hyps by (metis (no_types, lifting) fst_conv in_set_impl_in_set_zip1 set_zip_leftD surjective_pairing)
  with Cons show ?case by simp
qed

lemma top_scored:
  assumes "x \<in> set (take 3 (scoredArticles articles))"
  shows "snd (snd x) < length articles \<and> fst x = articles ! snd (snd x)
       \<and> fst (snd x) = positiveScore (articles ! snd (snd x))"
proof -
  from assms have "x \<in> set (scoredArticles articles)" by (rule in_set_takeD)
  then show ?thesis unfolding set_scoredArticles by auto
qed

lemma fallbackAnalysis_sorted:
  "sorted_wrt (\<lambda>s t. positiveScore (articles ! nat (originalIndex t))
                       \<le> positiveScore (articles ! nat (originalIndex s)))
     (topArticles (fallbackAnalysis articles))"
proof -
  let ?top = "take 3 (scoredArticles articles)"
  let ?R = "\<lambda>x y. positiveScore (articles ! snd (snd y)) \<le> positiveScore (articles ! snd (snd x))"
  have "sorted_wrt (\<lambda>x y. fst (snd y) \<le> fst (snd x)) ?top"
    using sorted_scoredArticles [of articles] by (rule sorted_wrt_take)
  then have "sorted_wrt ?R ?top"
  proof (rule sorted_wrt_mono_rel [rotated])
    fix x y
    assume "x \<in> set ?top" and "y \<in> set ?top" and "fst (snd y) \<le> fst (snd x)"
    then show "?R x y"
      using top_scored [of x articles] top_scored [of y articles] by simp
  qed
  moreover have "sorted_wrt (\<lambda>p q. ?R (fst p) (fst q)) (zip ?top [0 ..< length ?top])
                   = sorted_wrt ?R ?top"
    by (rule sorted_wrt_zip_fst) simp
  ultimately have "sorted_wrt (\<lambda>p q. ?R (fst p) (fst q)) (zip ?top [0 ..< length ?top])"
    by (rule ssubst [rotated])
  then show ?thesis
    unfolding fallbackAnalysis_alt sorted_wrt_map by (simp add: case_prod_beta)
qed

lemma map_zip_fst:
  "length xs = length ys \<Longrightarrow> map (\<lambda>p. f (fst p)) (zip xs ys) = map f xs"
  by (induction xs ys rule: list_induct2) simp_all

lemma fallbackAnalysis_indices:
  "originalIndex ` set (topArticles (fallbackAnalysis articles)) =
     (\<lambda>x. int (snd (snd x))) ` set (take 3 (scoredArticles articles))"
proof -
  let ?top = "take 3 (scoredArticles articles)"
  have "map originalIndex (topArticles (fallbackAnalysis articles))
          = map (\<lambda>p. int (snd (snd (fst p)))) (zip ?top [0 ..< length ?top])"
    unfolding fallbackAnalysis_alt by (simp add: comp_def case_prod_beta)
  also have "\<dots> = map (\<lambda>x. int (snd (snd x))) ?top"
    by (rule map_zip_fst) simp
  finally have "set (map originalIndex (topArticles (fallbackAnalysis articles)))
                  = set (map (\<lambda>x. int (snd (snd x))) ?top)" by simp
  then show ?thesis by simp
qed

lemma fallbackAnalysis_best:
  assumes j: "j < length articles"
    and out: "int j \<notin> originalIndex ` set (topArticles (fallbackAnalysis articles))"
    and t: "t \<in> set (topArticles (fallbackAnalysis articles))"
  shows "positiveScore (articles ! j) \<le> positiveScore (articles ! nat (originalIndex t))"
proof -
  let ?sc = "scoredArticles articles"
  let ?y = "(articles ! j, positiveScore (articles ! j), j)"
  have y: "?y \<in> set ?sc" unfolding set_scoredArticles using j by blast
  have "?y \<notin> set (take 3 ?sc)"
    using out unfolding fallbackAnalysis_indices by force
  with y have yd: "?y \<in> set (drop 3 ?sc)"
    by (metis Un_iff append_take_drop_id set_append)
  from t have "originalIndex t \<in> (\<lambda>x. int (snd (snd x))) ` set (take 3 ?sc)"
    unfolding fallbackAnalysis_indices [symmetric] by simp
  then obtain x where x: "x \<in> set (take 3 ?sc)" and xi: "originalIndex t = int (snd (snd x))"
    by blast
  have "sorted_wrt (\<lambda>x y. fst (snd y) \<le> fst (snd x)) (take 3 ?sc @ drop 3 ?sc)"
    using sorted_scoredArticles [of articles] by simp
  then have "fst (snd ?y) \<le> fst (snd x)"
    unfolding sorted_wrt_append using x yd by blast
  then show ?thesis using top_scored [OF x] xi by simp
qed


text \<open>
  Claim C6. Without a credential \<open>analyzeWithGemini\<close> sends nothing over the network
  and returns the local analysis; when the backend call fails or its text does not
  parse, it returns the local analysis as well, as a normal result. The local analysis
  has exactly min(3, number of articles) entries, ranked 1, 2, ..., each with the fixed
  texts and the title and description of the article it points to; the entries are in
  order of non-increasing keyword score, and no article left out scores higher than one
  that is listed.
\<close>

theorem analyzeWithGemini_local_fallback:
  "(\<not> truthy (geminiApiKey env) \<longrightarrow>
      analyzeWithGemini env articles = (Inr (fallbackAnalysis articles), []))
   \<and> ((\<exists>e. geminiReply env (analysisPrompt articles) = Inl e)
        \<or> (\<exists>txt e. geminiReply env (analysisPrompt articles) = Inr txt \<and> jsonParse env txt = Inl e)
       \<longrightarrow> fst (analyzeWithGemini env articles) = Inr (fallbackAnalysis articles))
   \<and> length (topArticles (fallbackAnalysis articles)) = min 3 (length articles)
   \<and> map rank (topArticles (fallbackAnalysis articles)) = [1 ..< Suc (min 3 (length articles))]
   \<and> overallTrend (fallbackAnalysis articles) = overallTrendText
   \<and> (\<forall>t \<in> set (topArticles (fallbackAnalysis articles)).
         whyPositive t = whyPositiveText \<and> topKeyPoints t = keyPointsText
         \<and> (\<exists>i < length articles. originalIndex t = int i
               \<and> topTitle t = newsTitle (articles ! i) \<and> topSummary t = description (articles ! i)))
   \<and> sorted_wrt (\<lambda>s t. positiveScore (articles ! nat (originalIndex t))
                         \<le> positiveScore (articles ! nat (originalIndex s)))
        (topArticles (fallbackAnalysis articles))
   \<and> (\<forall>j < length articles.
         int j \<notin> originalIndex ` set (topArticles (fallbackAnalysis articles)) \<longrightarrow>
         (\<forall>t \<in> set (topArticles (fallbackAnalysis articles)).
            positiveScore (articles ! j) \<le> positiveScore (articles ! nat (originalIndex t))))"
proof -
  have 1: "\<not> truthy (geminiApiKey env) \<longrightarrow>
      analyzeWithGemini env articles = (Inr (fallbackAnalysis articles), [])"
    by (simp add: analyzeWithGemini_def)
  have 2: "(\<exists>e. geminiReply env (analysisPrompt articles) = Inl e)
        \<or> (\<exists>txt e. geminiReply env (analysisPrompt articles) = Inr txt \<and> jsonParse env txt = Inl e)
       \<longrightarrow> fst (analyzeWithGemini env articles) = Inr (fallbackAnalysis articles)"
    by (auto simp: analyzeWithGemini_def Let_def)
  have 3: "overallTrend (fallbackAnalysis articles) = overallTrendText"
    by (simp add: fallbackAnalysis_def Let_def)
  show ?thesis
    using 1 2 3 fallbackAnalysis_length [of articles] fallbackAnalysis_ranks [of articles]
      fallbackAnalysis_entries [of _ articles] fallbackAnalysis_sorted [of articles]
      fallbackAnalysis_best [of _ articles]
    by blast
qed


text \<open>Four example articles and no credential: three entries, best score first.\<close>

theorem analyzeWithGemini_local_fallback_witness:
  "\<not> truthy (geminiApiKey envNoKey)
   \<and> analyzeWithGemini envNoKey exampleNews = (Inr (fallbackAnalysis exampleNews), [])
   \<and> length (topArticles (fallbackAnalysis exampleNews)) = 3
   \<and> map rank (topArticles (fallbackAnalysis exampleNews)) = [1, 2, 3]
   \<and> map originalIndex (topArticles (fallbackAnalysis exampleNews)) = [2, 1, 3]
   \<and> map positiveScore exampleNews = [0, 2, 4, 1]"
proof -
  have k: "\<not> truthy (geminiApiKey envNoKey)"
    by (simp add: envNoKey_def truthy_def)
  have n: "length exampleNews = 4" by (simp add: exampleNews_def)
  have p: "map positiveScore exampleNews = [0, 2, 4, 1]" by code_simp
  have u: "[1 ..< Suc 3] = [1, 2, 3]" by (simp add: upt_rec)
  from analyzeWithGemini_local_fallback [of envNoKey exampleNews] k n exampleNews_indices p u
  show ?thesis by simp
qed

section \<open>Properties of the briefing agent\<close>

text \<open>
  Claim C2. When the search finds nothing, or the analysis or the post generation
  throws, \<open>run\<close> leaves the store (list and file) as it was and does not succeed; the
  store differs after a run only if a post was produced, and then the list in memory
  holds the urls of the articles found.
\<close>

theorem run_marks_seen_after_post:
  "((AIGoodNewsAgent_searchAINews env s = []
      \<or> (\<exists>e. fst (analyzeWithGemini env (AIGoodNewsAgent_searchAINews env s)) = Inl e)
      \<or> (\<exists>a e. fst (analyzeWithGemini env (AIGoodNewsAgent_searchAINews env s)) = Inr a
             \<and> fst (generateLinkedInPost env a (AIGoodNewsAgent_searchAINews env s)) = Inl e))
     \<longrightarrow> snd (AIGoodNewsAgent_run env s) = s
         \<and> (\<forall>found p trend. fst (AIGoodNewsAgent_run env s) \<noteq> Success found p trend))
   \<and> (snd (AIGoodNewsAgent_run env s) \<noteq> s \<longrightarrow>
        (\<exists>a p. fst (analyzeWithGemini env (AIGoodNewsAgent_searchAINews env s)) = Inr a
           \<and> fst (generateLinkedInPost env a (AIGoodNewsAgent_searchAINews env s)) = Inr p
           \<and> seenArticles (snd (AIGoodNewsAgent_run env s))
               = markSeen (seenArticles s) (AIGoodNewsAgent_searchAINews env s)))"
  unfolding AIGoodNewsAgent_run_def Let_def saveSeenArticles_def
  by (auto split: sum.splits if_splits)


text \<open>
  A backend whose analysis holds no entry: the post generation throws and the store is
  left as it was.
\<close>

theorem run_marks_seen_after_post_witness:
  "AIGoodNewsAgent_searchAINews envNoTopArticle store0 = exampleNews
   \<and> fst (analyzeWithGemini envNoTopArticle exampleNews)
       = Inr \<lparr> topArticles = [], overallTrend = js ''Steady progress.'' \<rparr>
   \<and> fst (generateLinkedInPost envNoTopArticle
            \<lparr> topArticles = [], overallTrend = js ''Steady progress.'' \<rparr> exampleNews)
       = Inl TypeError
   \<and> snd (AIGoodNewsAgent_run envNoTopArticle store0) = store0"
proof -
  have "AIGoodNewsAgent_searchAINews envNoTopArticle store0 = AIGoodNewsAgent_searchAINews envNoKey store0"
    by (simp add: AIGoodNewsAgent_searchAINews_def envNoTopArticle_def)
  then have s: "AIGoodNewsAgent_searchAINews envNoTopArticle store0 = exampleNews"
    by (simp only: exampleNews_found)
  have a: "fst (analyzeWithGemini envNoTopArticle exampleNews)
       = Inr \<lparr> topArticles = [], overallTrend = js ''Steady progress.'' \<rparr>"
    by (simp add: analyzeWithGemini_def envNoTopArticle_def envNoKey_def truthy_def js_def)
  have g: "fst (generateLinkedInPost envNoTopArticle
            \<lparr> topArticles = [], overallTrend = js ''Steady progress.'' \<rparr> exampleNews)
       = Inl TypeError"
    by (simp add: generateLinkedInPost_def envNoTopArticle_def envNoKey_def truthy_def js_def)
  from run_marks_seen_after_post [of envNoTopArticle store0] s a g
  show ?thesis by auto
qed

text \<open>
  Claim C3, as amended. Every entry of a local analysis has an \<open>originalIndex\<close> that
  is an index of the list analysed. An analysis parsed from the backend's reply is
  returned as it is, whatever its indices; when the index of its first entry is out of
  range, \<open>generateLinkedInPost\<close> throws a TypeError at the lookup, and \<open>run\<close> catches
  it: the run fails and the store is left as it was.
\<close>

theorem analysis_originalIndex:
  "(\<forall>t \<in> set (topArticles (fallbackAnalysis articles)).
       0 \<le> originalIndex t \<and> originalIndex t < int (length articles))
   \<and> (truthy (geminiApiKey env) \<and> geminiReply env (analysisPrompt articles) = Inr txt
        \<and> jsonParse env txt = Inr a
       \<longrightarrow> fst (analyzeWithGemini env articles) = Inr a)
   \<and> (\<forall>t others. topArticles a = t # others
        \<and> \<not> (0 \<le> originalIndex t \<and> originalIndex t < int (length articles))
       \<longrightarrow> fst (generateLinkedInPost env a articles) = Inl TypeError
           \<and> (AIGoodNewsAgent_searchAINews env s = articles \<and> articles \<noteq> []
                \<and> fst (analyzeWithGemini env articles) = Inr a
               \<longrightarrow> AIGoodNewsAgent_run env s = (Failed TypeError, s)))"
proof -
  have "\<forall>t \<in> set (topArticles (fallbackAnalysis articles)).
       0 \<le> originalIndex t \<and> originalIndex t < int (length articles)"
    using fallbackAnalysis_entries [of _ articles] by fastforce
  moreover have "truthy (geminiApiKey env) \<and> geminiReply env (analysisPrompt articles) = Inr txt
        \<and> jsonParse env txt = Inr a
       \<longrightarrow> fst (analyzeWithGemini env articles) = Inr a"
    by (simp add: analyzeWithGemini_def Let_def)
  moreover have "\<forall>t others. topArticles a = t # others
        \<and> \<not> (0 \<le> originalIndex t \<and> originalIndex t < int (length articles))
       \<longrightarrow> fst (generateLinkedInPost env a articles) = Inl TypeError
           \<and> (AIGoodNewsAgent_searchAINews env s = articles \<and> articles \<noteq> []
                \<and> fst (analyzeWithGemini env articles) = Inr a
               \<longrightarrow> AIGoodNewsAgent_run env s = (Failed TypeError, s))"
  proof (intro allI impI)
    fix t others
    assume h: "topArticles a = t # others
        \<and> \<not> (0 \<le> originalIndex t \<and> originalIndex t < int (length articles))"
    then have g: "fst (generateLinkedInPost env a articles) = Inl TypeError"
      by (auto simp: generateLinkedInPost_def generateFallbackPost_def at_index_def)
    then show "fst (generateLinkedInPost env a articles) = Inl TypeError
           \<and> (AIGoodNewsAgent_searchAINews env s = articles \<and> articles \<noteq> []
                \<and> fst (analyzeWithGemini env articles) = Inr a
               \<longrightarrow> AIGoodNewsAgent_run env s = (Failed TypeError, s))"
      by (simp add: AIGoodNewsAgent_run_def Let_def)
  qed
  ultimately show ?thesis by blast
qed

text \<open>
  The claim as first stated fails: the backend's analysis names index 5 of four
  articles; it is returned unchanged, the lookup throws, and the run reports a failure.
\<close>

theorem analysis_originalIndex_counterexample:
  "fst (analyzeWithGemini envIndexFive exampleNews) = Inr indexFiveAnalysis
   \<and> map originalIndex (topArticles indexFiveAnalysis) = [5]
   \<and> length exampleNews = 4
   \<and> fst (generateLinkedInPost envIndexFive indexFiveAnalysis exampleNews) = Inl TypeError
   \<and> AIGoodNewsAgent_run envIndexFive store0 = (Failed TypeError, store0)"
proof -
  have a: "fst (analyzeWithGemini envIndexFive exampleNews) = Inr indexFiveAnalysis"
    by (simp add: analyzeWithGemini_def envIndexFive_def envNoKey_def truthy_def js_def)
  have i: "map originalIndex (topArticles indexFiveAnalysis) = [5]"
    by (simp add: indexFiveAnalysis_def)
  have n: "length exampleNews = 4" by (simp add: exampleNews_def)
  have g: "fst (generateLinkedInPost envIndexFive indexFiveAnalysis exampleNews) = Inl TypeError"
    by (simp add: generateLinkedInPost_def envIndexFive_def envNoKey_def truthy_def js_def
        indexFiveAnalysis_def at_index_def n)
  have "AIGoodNewsAgent_searchAINews envIndexFive store0 = AIGoodNewsAgent_searchAINews envNoKey store0"
    by (simp add: AIGoodNewsAgent_searchAINews_def envIndexFive_def)
  then have s: "AIGoodNewsAgent_searchAINews envIndexFive store0 = exampleNews"
    by (simp only: exampleNews_found)
  have r: "AIGoodNewsAgent_run envIndexFive store0 = (Failed TypeError, store0)"
    unfolding AIGoodNewsAgent_run_def Let_def s using a g n by auto
  from a i n g r show ?thesis by blast
qed

text \<open>The amended statement at the same backend and articles.\<close>

theorem analysis_originalIndex_witness:
  "truthy (geminiApiKey envIndexFive)
   \<and> fst (analyzeWithGemini envIndexFive exampleNews) = Inr indexFiveAnalysis
   \<and> fst (generateLinkedInPost envIndexFive indexFiveAnalysis exampleNews) = Inl TypeError
   \<and> map originalIndex (topArticles (fallbackAnalysis exampleNews)) = [2, 1, 3]"
proof -
  have k: "truthy (geminiApiKey envIndexFive)"
    by (simp add: envIndexFive_def envNoKey_def truthy_def js_def)
  have r: "geminiReply envIndexFive (analysisPrompt exampleNews) = Inr (js ''reply'')"
    by (simp add: envIndexFive_def envNoKey_def)
  have j: "jsonParse envIndexFive (js ''reply'') = Inr indexFiveAnalysis"
    by (simp add: envIndexFive_def envNoKey_def)
  have t: "topArticles indexFiveAnalysis = hd (topArticles indexFiveAnalysis) # []"
    by (simp add: indexFiveAnalysis_def)
  have o: "\<not> (0 \<le> originalIndex (hd (topArticles indexFiveAnalysis))
              \<and> originalIndex (hd (topArticles indexFiveAnalysis)) < int (length exampleNews))"
    by (simp add: indexFiveAnalysis_def exampleNews_def)
  note i = exampleNews_indices
  from analysis_originalIndex [of exampleNews envIndexFive "js ''reply''" indexFiveAnalysis store0]
    k r j t o i
  show ?thesis by blast
qed

lemma generateLinkedInPost_formats_reply:
  assumes "truthy (geminiApiKey env)"
    and "topArticles a = t # others"
    and "at_index articles (originalIndex t) = Some original"
    and "geminiReply env (postPrompt t original) = Inr p"
  shows "fst (generateLinkedInPost env a articles) =
           Inr (if includes_str p (js ''http'') \<or> newsUrl original = [] then p
                else p @ [10, 10] @ js ''Source: '' @ newsUrl original)"
  using assms
  by (simp add: generateLinkedInPost_def formatLinkedInPost_def Let_def)

lemma includes_str_append_right: "includes_str t p \<Longrightarrow> includes_str (s @ t) p"
  by (induction s) simp_all

text \<open>The prompt itself asks the backend for the hashtags and for the source link.\<close>

lemma postPrompt_asks_for_tags_and_link:
  "includes_str (postPrompt t original) (js ''Include relevant hashtags'')
   \<and> includes_str (postPrompt t original) (js ''Include the source link at the end'')"
proof -
  have "includes_str postGuidelines (js ''Include relevant hashtags'')"
    and "includes_str postGuidelines (js ''Include the source link at the end'')"
    by code_simp+
  then show ?thesis
    unfolding postPrompt_def by (simp add: includes_str_append_right)
qed

text \<open>
  Claim C4, as amended. With a credential, a first entry that points to an article, and
  a reply of the backend, the post is the backend's text as it is when that text
  contains \<open>http\<close> or the article has no url, and the text followed by the source line
  otherwise: nothing is cut and no hashtag is added.
\<close>

theorem generateLinkedInPost_backend_text:
  assumes "truthy (geminiApiKey env)"
    and "topArticles a = t # others"
    and "at_index articles (originalIndex t) = Some original"
    and "geminiReply env (postPrompt t original) = Inr p"
  shows "fst (generateLinkedInPost env a articles) =
           Inr (if includes_str p (js ''http'') \<or> newsUrl original = [] then p
                else p @ [10, 10] @ js ''Source: '' @ newsUrl original)"
  using assms by (rule generateLinkedInPost_formats_reply)

text \<open>
  The claim as first stated fails: a reply of 3500 characters is passed on in full, with
  only the source line added and no hashtag; a reply with its own tags and link is
  passed on as it is.
\<close>

theorem generateLinkedInPost_backend_counterexample:
  "fst (generateLinkedInPost envLongText (fallbackAnalysis exampleNews) exampleNews)
     = Inr (replicate 3500 97 @ [10, 10] @ js ''Source: https://example.org/c'')
   \<and> (3000 :: nat) < length (replicate 3500 (97 :: nat) @ [10, 10] @ js ''Source: https://example.org/c'')
   \<and> fst (generateLinkedInPost envOwnTags (fallbackAnalysis exampleNews) exampleNews)
     = Inr (js ''Big news for AI! #AI #Tech https://example.org/c'')"
proof -
  let ?a = "fallbackAnalysis exampleNews"
  let ?t = "hd (topArticles ?a)"
  have t: "topArticles ?a = ?t # tl (topArticles ?a)"
    using exampleNews_indices by (cases "topArticles ?a") simp_all
  have "originalIndex ?t = 2"
    using exampleNews_indices by (cases "topArticles ?a") simp_all
  then have o: "at_index exampleNews (originalIndex ?t) = Some (exampleNews ! 2)"
    by (simp add: at_index_def exampleNews_def)
  have u: "newsUrl (exampleNews ! 2) = js ''https://example.org/c''"
    by (simp add: exampleNews_def)
  have n: "\<not> includes_str (replicate 3500 97) (js ''http'')"
    using includes_str_subset [of "replicate 3500 97" "js ''http''"] by (auto simp: js_def)
  have k1: "truthy (geminiApiKey envLongText)"
    by (simp add: envLongText_def envNoKey_def truthy_def js_def)
  have r1: "geminiReply envLongText (postPrompt ?t (exampleNews ! 2)) = Inr (replicate 3500 97)"
    by (simp add: envLongText_def envNoKey_def)
  have 1: "fst (generateLinkedInPost envLongText ?a exampleNews)
     = Inr (replicate 3500 97 @ [10, 10] @ js ''Source: https://example.org/c'')"
    using generateLinkedInPost_formats_reply [OF k1 t o r1] n u by (simp add: js_def)
  have h: "includes_str (js ''Big news for AI! #AI #Tech https://example.org/c'') (js ''http'')"
    by code_simp
  have k2: "truthy (geminiApiKey envOwnTags)"
    by (simp add: envOwnTags_def envNoKey_def truthy_def js_def)
  have r2: "geminiReply envOwnTags (postPrompt ?t (exampleNews ! 2))
             = Inr (js ''Big news for AI! #AI #Tech https://example.org/c'')"
    by (simp add: envOwnTags_def envNoKey_def)
  have 2: "fst (generateLinkedInPost envOwnTags ?a exampleNews)
     = Inr (js ''Big news for AI! #AI #Tech https://example.org/c'')"
    using generateLinkedInPost_formats_reply [OF k2 t o r2] h by simp
  from 1 2 show ?thesis by simp
qed

text \<open>The amended statement at the reply that brings its own link.\<close>

theorem generateLinkedInPost_backend_text_witness:
  "truthy (geminiApiKey envOwnTags)
   \<and> fst (generateLinkedInPost envOwnTags (fallbackAnalysis exampleNews) exampleNews)
       = Inr (js ''Big news for AI! #AI #Tech https://example.org/c'')"
proof -
  let ?a = "fallbackAnalysis exampleNews"
  let ?t = "hd (topArticles ?a)"
  have k: "truthy (geminiApiKey envOwnTags)"
    by (simp add: envOwnTags_def envNoKey_def truthy_def js_def)
  have t: "topArticles ?a = ?t # tl (topArticles ?a)"
    using exampleNews_indices by (cases "topArticles ?a") simp_all
  have "originalIndex ?t = 2"
    using exampleNews_indices by (cases "topArticles ?a") simp_all
  then have o: "at_index exampleNews (originalIndex ?t) = Some (exampleNews ! 2)"
    by (simp add: at_index_def exampleNews_def)
  have r: "geminiReply envOwnTags (postPrompt ?t (exampleNews ! 2))
             = Inr (js ''Big news for AI! #AI #Tech https://example.org/c'')"
    by (simp add: envOwnTags_def envNoKey_def)
  have h: "includes_str (js ''Big news for AI! #AI #Tech https://example.org/c'') (js ''http'')"
    by code_simp
  from generateLinkedInPost_backend_text [OF k t o r] h k show ?thesis by simp
qed

section \<open>Properties of post synthesis\<close>

lemma createLinkedInPost_characterCount:
  "characterCount (createLinkedInPost cfg r a st) = length (content (createLinkedInPost cfg r a st))"
  by (simp add: createLinkedInPost_def Let_def)

lemma fold_addTag_prefix:
  "\<exists>ys. fold (\<lambda>(keyword, hashtag) tags.
              if includes_str t keyword then addTag tags hashtag else tags) m core = core @ ys"
proof (induction m arbitrary: core)
  case Nil
  show ?case by simp
next
  case (Cons p m)
  obtain k h where p: "p = (k, h)" by (cases p)
  show ?case
  proof (cases "includes_str t k \<and> h \<notin> set core")
    case True
    from Cons.IH [of "core @ [h]"] obtain ys where
      "fold (\<lambda>(keyword, hashtag) tags.
              if includes_str t keyword then addTag tags hashtag else tags) m (core @ [h]) = (core @ [h]) @ ys"
      by blast
    with True p show ?thesis by (auto simp: addTag_def)
  next
    case False
    with Cons.IH [of core] p show ?thesis by (auto simp: addTag_def)
  qed
qed

lemma core_tags:
  "addTag (addTag [] (js ''#ArtificialIntelligence'')) (js ''#AI'') = [js ''#ArtificialIntelligence'', js ''#AI'']"
  by (simp add: addTag_def js_def)

lemma generateHashtags_core:
  assumes "maxHashtags cfg = 5"
  shows "length (generateHashtags cfg a) \<le> 5
       \<and> js ''#ArtificialIntelligence'' \<in> set (generateHashtags cfg a)
       \<and> js ''#AI'' \<in> set (generateHashtags cfg a)"
proof -
  let ?t = "toLowerCase (title a @ js '' '' @ summary a)"
  obtain ys where ys: "fold (\<lambda>(keyword, hashtag) tags.
              if includes_str ?t keyword then addTag tags hashtag else tags) hashtagMap
              [js ''#ArtificialIntelligence'', js ''#AI''] = [js ''#ArtificialIntelligence'', js ''#AI''] @ ys"
    using fold_addTag_prefix by blast
  have "generateHashtags cfg a = take 5 ([js ''#ArtificialIntelligence'', js ''#AI''] @ ys)"
    unfolding generateHashtags_def Let_def core_tags ys slice0_def using assms by simp
  then show ?thesis by simp
qed

lemma createLinkedInPost_within_budget:
  fixes cfg r a st
  defines "p \<equiv> createLinkedInPost cfg r a st"
  defines "budget \<equiv> maxCharacters cfg - int (length (joinWith (js '' '') (generateHashtags cfg a)))
                      - int (length ([10, 10] @ js ''Source: '' @ url a)) - 10"
  assumes "3 \<le> budget"
  shows "int (characterCount p) \<le> maxCharacters cfg"
  using assms(3) unfolding p_def budget_def createLinkedInPost_def Let_def substring0_def
  by (simp add: js_def)

lemma createLinkedInPost_negative_budget:
  assumes "maxCharacters cfg - int (length (joinWith (js '' '') (generateHashtags cfg a)))
             - int (length ([10, 10] @ js ''Source: '' @ url a)) - 10 < 0"
  shows "content (createLinkedInPost cfg r a st) =
           js ''...'' @ [10, 10] @ joinWith (js '' '') (generateHashtags cfg a)
             @ [10, 10] @ js ''Source: '' @ url a"
  using assms unfolding createLinkedInPost_def Let_def substring0_def
  by simp

lemma createLinkedInPost_truncation:
  fixes cfg r a st
  defines "body \<equiv> (if st = js ''news_share'' then createNewsSharePost r a (extractKeyPoints a)
                  else if st = js ''question'' then createQuestionPost r a (extractKeyPoints a)
                  else if st = js ''insight'' then createInsightPost r a (extractKeyPoints a)
                  else if st = js ''list'' then createListPost a (extractKeyPoints a)
                  else createNewsSharePost r a (extractKeyPoints a))"
    and "tail \<equiv> [10, 10] @ joinWith (js '' '') (generateHashtags cfg a)
                  @ [10, 10] @ js ''Source: '' @ url a"
    and "budget \<equiv> maxCharacters cfg - int (length (joinWith (js '' '') (generateHashtags cfg a)))
                      - int (length ([10, 10] @ js ''Source: '' @ url a)) - 10"
  shows "content (createLinkedInPost cfg r a st) =
           (if int (length body) > budget then take (nat (budget - 3)) body @ js ''...'' @ tail
            else body @ tail)"
  unfolding body_def tail_def budget_def createLinkedInPost_def Let_def substring0_def
  by simp

lemma generateHashtags_cong:
  "title a = title b \<Longrightarrow> summary a = summary b \<Longrightarrow> generateHashtags cfg a = generateHashtags cfg b"
  by (simp add: generateHashtags_def)

lemma longUrlArticle_hashtags:
  "generateHashtags CONFIG longUrlArticle =
     [js ''#ArtificialIntelligence'', js ''#AI'', js ''#OpenAI'', js ''#AIResearch'']"
proof -
  have "generateHashtags CONFIG longUrlArticle = generateHashtags CONFIG (longUrlArticle \<lparr> url := [] \<rparr>)"
    by (rule generateHashtags_cong) simp_all
  also have "longUrlArticle \<lparr> url := [] \<rparr> = \<lparr>
     title = js ''OpenAI research update'',
     url = [],
     summary = js ''OpenAI announced new research.'',
     source = js ''example.com'',
     publishedDate = 0,
     relevanceScore = 0.9,
     keyPoints = [],
     searchQuery = js ''OpenAI'' \<rparr>"
    by (simp add: longUrlArticle_def)
  also have "generateHashtags CONFIG \<dots> =
     [js ''#ArtificialIntelligence'', js ''#AI'', js ''#OpenAI'', js ''#AIResearch'']"
    by code_simp
  finally show ?thesis .
qed

text \<open>
  Claim C1. A post is meant to stay within the configured 3000 characters. The count
  equals the length of the content, the tags are at most five and hold the two generic
  ones, a body over the budget is cut and ends in an ellipsis before the tags and the
  source line, and the count stays within the maximum whenever the budget is at least 3
  (\<open>createLinkedInPost_characterCount\<close>, \<open>generateHashtags_core\<close>,
  \<open>createLinkedInPost_truncation\<close>, \<open>createLinkedInPost_within_budget\<close>). But the budget is what is left of the maximum
  after the tags and the source line, and it is not checked for being negative: for an
  article whose url is 2992 characters long the body is cut down to the ellipsis and the
  post still has 3054 characters, whatever the style and the draw.
\<close>

theorem createLinkedInPost_long_url:
  "characterCount (createLinkedInPost CONFIG r longUrlArticle st) = 3054
   \<and> maxCharacters CONFIG = 3000"
proof -
  note h = longUrlArticle_hashtags
  have b: "maxCharacters CONFIG - int (length (joinWith (js '' '') (generateHashtags CONFIG longUrlArticle)))
             - int (length ([10, 10] @ js ''Source: '' @ url longUrlArticle)) - 10 < 0"
    unfolding h by (simp add: CONFIG_def longUrlArticle_def js_def)
  have "characterCount (createLinkedInPost CONFIG r longUrlArticle st) = 3054"
    unfolding createLinkedInPost_characterCount createLinkedInPost_negative_budget [OF b] h
    by (simp add: longUrlArticle_def js_def)
  then show ?thesis by (simp add: CONFIG_def)
qed

end
